theory Spec2Isabelle
  imports Main "HOL-Library.Word"
begin

section \<open>Go slices over an explicit store\<close>

text \<open>
  The buffers of \<^verbatim>\<open>pkg/table/tblctx/buffers.go\<close> are Go slices: a slice value is a
  header (data pointer, length, capacity) and the elements live in a backing array that
  several headers may share. The store of backing arrays of one element type is a list of
  arrays; an address is an index into it, and an allocation appends a new array, so the
  fresh address is the length of the store. Stores of different element types are
  disjoint, as Go's type system has it.

  Lengths and capacities of a header are naturals; the \<^verbatim>\<open>int\<close> arguments of the source
  (which may be negative) are integers.

  The run time refuses to allocate an array above its allocation limit: \<^verbatim>\<open>make\<close> panics
  when the capacity times the element size overflows or exceeds \<^verbatim>\<open>maxAlloc\<close>. The limit is
  a parameter \<open>lim\<close>, the largest number of elements of the type that an array may have
  (\<^verbatim>\<open>maxAlloc\<close> divided by the element size; for an element type of size zero, which
  nothing exceeds, the largest \<^verbatim>\<open>int\<close>); it is given per element type. Within the
  limit an allocation succeeds: running out of memory, which ends the program and is not
  a panic, is not a behaviour of this model.
\<close>

type_synonym addr = nat

type_synonym int64 = "64 word"

type_synonym byte = "8 word"

record slice =
  ptr :: "addr option"
  len :: nat
  cap :: nat

text \<open>The nil slice: no backing array, length and capacity zero.\<close>

definition nil :: slice where
  "nil = \<lparr>ptr = None, len = 0, cap = 0\<rparr>"

text \<open>The run-time panics and assertion failures that the code can raise.\<close>

datatype fault =
    MakeSliceLenOutOfRange
  | MakeSliceCapOutOfRange
  | SliceBoundsOutOfRange
  | IndexOutOfRange
  | NilPointerDereference
  | AssertionFailed

text \<open>The elements that a slice header shows: the first \<open>len\<close> cells of its array.\<close>

definition view :: "'a list list \<Rightarrow> slice \<Rightarrow> 'a list" where
  "view h s = (case ptr s of None \<Rightarrow> [] | Some p \<Rightarrow> take (len s) (h ! p))"

text \<open>
  A header is valid in a store when its array is allocated and at least as long as the
  capacity, and the length is within the capacity. Go keeps every slice valid; the
  predicate only rules out headers that no Go program can hold.
\<close>

definition valid :: "'a list list \<Rightarrow> slice \<Rightarrow> bool" where
  "valid h s =
     (case ptr s of
        None \<Rightarrow> len s = 0 \<and> cap s = 0
      | Some p \<Rightarrow> p < length h \<and> len s \<le> cap s \<and> cap s \<le> length (h ! p))"

text \<open>
  \<^verbatim>\<open>make([]T, size, capacity)\<close>, as the run time's \<^verbatim>\<open>makeslice\<close> decides it: the call panics
  when the capacity is above the allocation limit (a negative capacity, read as unsigned,
  is), when the length is negative, and when the length is above the capacity. The panic
  names the length when the length alone is negative or above the limit, and the capacity
  otherwise. In all other cases the call allocates an array of \<open>capacity\<close> zero values.
\<close>

definition make_slice ::
  "nat \<Rightarrow> 'a::zero list list \<Rightarrow> int \<Rightarrow> int \<Rightarrow> fault + (slice \<times> 'a list list)" where
  "make_slice lim h sz capacity =
     (if capacity < 0 \<or> int lim < capacity \<or> sz < 0 \<or> capacity < sz then
        (if sz < 0 \<or> int lim < sz then Inl MakeSliceLenOutOfRange
         else Inl MakeSliceCapOutOfRange)
      else Inr (\<lparr>ptr = Some (length h), len = nat sz, cap = nat capacity\<rparr>,
                h @ [replicate (nat capacity) 0]))"

text \<open>
  \<^verbatim>\<open>slice[:size]\<close>: panics unless \<open>0 \<le> size \<le> cap(slice)\<close>; otherwise the same pointer and
  capacity with the new length.
\<close>

definition reslice :: "slice \<Rightarrow> int \<Rightarrow> fault + slice" where
  "reslice s sz =
     (if sz < 0 \<or> int (cap s) < sz then Inl SliceBoundsOutOfRange
      else Inr (s\<lparr>len := nat sz\<rparr>))"

text \<open>
  \<^verbatim>\<open>append(s, vs...)\<close>. With room left the elements are written in place behind the
  current length. Otherwise the run time allocates a larger array, copies the visible
  elements and appends; how much room it adds is its own choice, given here by \<open>slack\<close>
  (extra cells as a function of the old capacity), so that the new capacity is at least
  the new length, which is all the language promises. A nil slice has capacity zero, so
  it has room only for no elements, and nothing is written. (Growing panics too when the
  new array would be above the allocation limit. That needs a slice whose length has
  reached a capacity of the order of the limit, that is, that much memory written
  element by element; like running out of memory, it is not a behaviour of this model.)
\<close>

definition growslice ::
  "(nat \<Rightarrow> nat) \<Rightarrow> 'a::zero list list \<Rightarrow> slice \<Rightarrow> 'a list \<Rightarrow> slice \<times> 'a list list" where
  "growslice slack h s vs =
     (\<lparr>ptr = Some (length h), len = len s + length vs,
       cap = len s + length vs + slack (cap s)\<rparr>,
      h @ [view h s @ vs @ replicate (slack (cap s)) 0])"

definition append_slice ::
  "(nat \<Rightarrow> nat) \<Rightarrow> 'a::zero list list \<Rightarrow> slice \<Rightarrow> 'a list \<Rightarrow> slice \<times> 'a list list" where
  "append_slice slack h s vs =
     (if len s + length vs \<le> cap s then
        (case ptr s of
           Some p \<Rightarrow>
             (s\<lparr>len := len s + length vs\<rparr>,
              h[p := take (len s) (h ! p) @ vs @ drop (len s + length vs) (h ! p)])
         | None \<Rightarrow> (s, h))
      else growslice slack h s vs)"

text \<open>
  \<^verbatim>\<open>s[i] = x\<close>: panics when the index is not below the length; otherwise writes the cell
  of the backing array.
\<close>

definition set_index :: "'a list list \<Rightarrow> slice \<Rightarrow> nat \<Rightarrow> 'a \<Rightarrow> fault + 'a list list" where
  "set_index h s i x =
     (if i < len s then
        (case ptr s of
           Some p \<Rightarrow> Inr (h[p := (h ! p)[i := x]])
         | None \<Rightarrow> Inl IndexOutOfRange)
      else Inl IndexOutOfRange)"

section \<open>ensureCapacityAndReset\<close>

text \<open>
  \<^verbatim>\<open>func ensureCapacityAndReset[T any](slice []T, size int, optCap ...int) []T\<close>:
  the variadic \<open>optCap\<close> is a list, of which only the first element is read; the
  parameters \<^verbatim>\<open>slice\<close> and \<^verbatim>\<open>size\<close> are written \<open>s\<close> and \<open>sz\<close>, and \<open>lim\<close> is the
  allocation limit for the element type \<^verbatim>\<open>T\<close>.
\<close>

definition ensureCapacityAndReset ::
  "nat \<Rightarrow> 'a::zero list list \<Rightarrow> slice \<Rightarrow> int \<Rightarrow> int list
     \<Rightarrow> fault + (slice \<times> 'a list list)" where
  "ensureCapacityAndReset lim h s sz optCap =
     (let capacity = (if length optCap > 0 then optCap ! 0 else sz) in
      if int (cap s) < capacity then make_slice lim h sz capacity
      else (case reslice s sz of
              Inl f \<Rightarrow> Inl f
            | Inr s' \<Rightarrow> Inr (s', h)))"

section \<open>The data model of the buffers\<close>

text \<open>
  The three element types of the file's slices, \<^verbatim>\<open>int64\<close>, \<^verbatim>\<open>types.Datum\<close> and \<^verbatim>\<open>byte\<close>,
  each have their store. \<^verbatim>\<open>types.Datum\<close> is declared outside the file: it is the type
  parameter \<open>'d\<close>, of which only the zero value is used (by \<^verbatim>\<open>make\<close> and \<^verbatim>\<open>append\<close>).
\<close>

record 'd heaps =
  int64s :: "int64 list list"
  datums :: "'d list list"
  bytes :: "byte list list"

text \<open>
  \<^verbatim>\<open>variable.WriteStmtBufs\<close> is declared outside the file; the two fields that the file
  uses are \<^verbatim>\<open>RowValBuf []byte\<close> and \<^verbatim>\<open>AddRowValues []types.Datum\<close>.
\<close>

record WriteStmtBufs =
  RowValBuf :: slice
  AddRowValues :: slice

text \<open>A \<^verbatim>\<open>*variable.WriteStmtBufs\<close> is an address of such an object, or nil (\<open>None\<close>).\<close>

record EncodeRowBuffer =
  colIDs :: slice
  row :: slice
  writeStmtBufs :: "addr option"

record CheckRowBuffer =
  rowToCheck :: slice

record MutateBuffers =
  stmtBufs :: "addr option"
  encodeRow :: EncodeRowBuffer
  checkRow :: CheckRowBuffer

text \<open>
  The memory that \<^verbatim>\<open>WriteMemBufferEncoded\<close> works on: the stores of backing arrays and
  the \<^verbatim>\<open>WriteStmtBufs\<close> objects, by address.
\<close>

record 'd world =
  heap :: "'d heaps"
  bufs :: "addr \<Rightarrow> WriteStmtBufs"

section \<open>EncodeRowBuffer\<close>

text \<open>
  \<^verbatim>\<open>func (b *EncodeRowBuffer) Reset(capacity int)\<close>; \<open>limI\<close> and \<open>limD\<close> are the allocation
  limits for \<^verbatim>\<open>int64\<close> and for \<^verbatim>\<open>types.Datum\<close>.
\<close>

definition EncodeRowBuffer_Reset ::
  "nat \<Rightarrow> nat \<Rightarrow> EncodeRowBuffer \<Rightarrow> int \<Rightarrow> 'd::zero heaps
     \<Rightarrow> fault + (EncodeRowBuffer \<times> 'd heaps)" where
  "EncodeRowBuffer_Reset limI limD b capacity hs =
     (case ensureCapacityAndReset limI (int64s hs) (colIDs b) 0 [capacity] of
        Inl f \<Rightarrow> Inl f
      | Inr (c, hI) \<Rightarrow>
          (case ensureCapacityAndReset limD (datums hs) (row b) 0 [capacity] of
             Inl f \<Rightarrow> Inl f
           | Inr (r, hD) \<Rightarrow>
               Inr (b\<lparr>colIDs := c, row := r\<rparr>, hs\<lparr>int64s := hI, datums := hD\<rparr>)))"

text \<open>
  \<^verbatim>\<open>func (b *EncodeRowBuffer) AddColVal(colID int64, val types.Datum)\<close>; \<open>slackI\<close> and
  \<open>slackD\<close> are the run time's growth choices for the two element types.
\<close>

definition EncodeRowBuffer_AddColVal ::
  "(nat \<Rightarrow> nat) \<Rightarrow> (nat \<Rightarrow> nat) \<Rightarrow> EncodeRowBuffer \<Rightarrow> int64 \<Rightarrow> 'd \<Rightarrow> 'd::zero heaps
     \<Rightarrow> EncodeRowBuffer \<times> 'd heaps" where
  "EncodeRowBuffer_AddColVal slackI slackD b colID val hs =
     (let (c, hI) = append_slice slackI (int64s hs) (colIDs b) [colID];
          (r, hD) = append_slice slackD (datums hs) (row b) [val]
      in (b\<lparr>colIDs := c, row := r\<rparr>, hs\<lparr>int64s := hI, datums := hD\<rparr>))"

text \<open>A sequence of \<^verbatim>\<open>AddColVal\<close> calls, one per pair of the list, in order.\<close>

fun EncodeRowBuffer_AddColVals ::
  "(nat \<Rightarrow> nat) \<Rightarrow> (nat \<Rightarrow> nat) \<Rightarrow> EncodeRowBuffer \<Rightarrow> (int64 \<times> 'd) list \<Rightarrow> 'd::zero heaps
     \<Rightarrow> EncodeRowBuffer \<times> 'd heaps" where
  "EncodeRowBuffer_AddColVals slackI slackD b [] hs = (b, hs)"
| "EncodeRowBuffer_AddColVals slackI slackD b ((colID, val) # ps) hs =
     (case EncodeRowBuffer_AddColVal slackI slackD b colID val hs of
        (b', hs') \<Rightarrow> EncodeRowBuffer_AddColVals slackI slackD b' ps hs')"

text \<open>A sequence of \<^verbatim>\<open>Reset\<close> calls, one per capacity of the list, in order.\<close>

fun EncodeRowBuffer_Resets ::
  "nat \<Rightarrow> nat \<Rightarrow> EncodeRowBuffer \<Rightarrow> int list \<Rightarrow> 'd::zero heaps
     \<Rightarrow> fault + (EncodeRowBuffer \<times> 'd heaps)" where
  "EncodeRowBuffer_Resets limI limD b [] hs = Inr (b, hs)"
| "EncodeRowBuffer_Resets limI limD b (capacity # cs) hs =
     (case EncodeRowBuffer_Reset limI limD b capacity hs of
        Inl f \<Rightarrow> Inl f
      | Inr (b', hs') \<Rightarrow> EncodeRowBuffer_Resets limI limD b' cs hs')"

subsection \<open>The collaborators of WriteMemBufferEncoded\<close>

text \<open>
  \<^verbatim>\<open>RowEncodingConfig\<close>, \<^verbatim>\<open>rowcodec.Checksum\<close>, \<^verbatim>\<open>errctx.Context\<close> and \<^verbatim>\<open>kv.MemBuffer\<close> are
  declared outside the file. Of the configuration the two fields read here are kept; a
  checksum is nil or \<^verbatim>\<open>rowcodec.RawChecksum{Handle: handle}\<close>; the error context is its
  method \<^verbatim>\<open>HandleError\<close>, from an error (\<open>None\<close> is nil) to an error; the in-memory store
  is an interface value, that is, its two methods and its own state, and a method
  receives the bytes of the slice it is handed and returns an error and the new state.
\<close>

record 'enc RowEncodingConfig =
  IsRowLevelChecksumEnabled :: bool
  RowEncoder :: 'enc

datatype 'h Checksum = NilChecksum | RawChecksum 'h

record 'e Context =
  HandleError :: "'e option \<Rightarrow> 'e option"

record ('k, 'f, 'e, 'm) MemBuffer =
  Set :: "'m \<Rightarrow> 'k \<Rightarrow> byte list \<Rightarrow> 'e option \<times> 'm"
  SetWithFlags :: "'m \<Rightarrow> 'k \<Rightarrow> byte list \<Rightarrow> 'f list \<Rightarrow> 'e option \<times> 'm"
  store :: 'm

text \<open>
  \<^verbatim>\<open>tablecodec.EncodeRow(loc, row, colIDs, valBuf, values, checksum, enc)\<close> is an external
  function: it is a parameter of this type, free to read and write the stores of backing
  arrays and to allocate, and returning the encoded slice and an error.
\<close>

type_synonym ('loc, 'd, 'h, 'enc, 'e) row_encoder =
  "'loc \<Rightarrow> slice \<Rightarrow> slice \<Rightarrow> slice \<Rightarrow> slice \<Rightarrow> 'h Checksum \<Rightarrow> 'enc \<Rightarrow> 'd heaps
     \<Rightarrow> (slice \<times> 'e option) \<times> 'd heaps"

subsection \<open>WriteMemBufferEncoded\<close>

text \<open>
  Lines 62 to 69: \<^verbatim>\<open>stmtBufs := b.writeStmtBufs\<close> and the adjustment of
  \<^verbatim>\<open>stmtBufs.AddRowValues\<close> to the length \<^verbatim>\<open>len(b.row)*2\<close>, with no capacity hint. Reading
  a field through a nil pointer panics. The result is the address (the local
  \<^verbatim>\<open>stmtBufs\<close>, written \<open>sb\<close>) and the world in which the encoder is then called;
  \<open>limD\<close> is the allocation limit for \<^verbatim>\<open>types.Datum\<close>.
\<close>

definition adjustAddRowValues ::
  "nat \<Rightarrow> EncodeRowBuffer \<Rightarrow> 'd::zero world \<Rightarrow> fault + (addr \<times> 'd world)" where
  "adjustAddRowValues limD b w =
     (case writeStmtBufs b of
        None \<Rightarrow> Inl NilPointerDereference
      | Some sb \<Rightarrow>
          (case ensureCapacityAndReset limD (datums (heap w)) (AddRowValues (bufs w sb))
                  (int (len (row b)) * 2) [] of
             Inl f \<Rightarrow> Inl f
           | Inr (vals, hD) \<Rightarrow>
               Inr (sb,
                    w\<lparr>heap := (heap w)\<lparr>datums := hD\<rparr>,
                      bufs := (bufs w)(sb := (bufs w sb)\<lparr>AddRowValues := vals\<rparr>)\<rparr>)))"

text \<open>
  Lines 74 to 82, given what the encoder returned: the error goes through
  \<^verbatim>\<open>ec.HandleError\<close>; a non-nil outcome is returned at once; otherwise the encoded slice
  is stored in \<^verbatim>\<open>stmtBufs.RowValBuf\<close> and written to the store, by \<^verbatim>\<open>Set\<close> when there are
  no flags and by \<^verbatim>\<open>SetWithFlags\<close> otherwise, whose error is the result.
\<close>

definition storeEncoded ::
  "'e Context \<Rightarrow> ('k, 'f, 'e, 'm) MemBuffer \<Rightarrow> 'k \<Rightarrow> 'f list \<Rightarrow> addr \<Rightarrow> 'd world
     \<Rightarrow> (slice \<times> 'e option) \<times> 'd heaps
     \<Rightarrow> fault + ('e option \<times> 'd world \<times> ('k, 'f, 'e, 'm) MemBuffer)" where
  "storeEncoded ec memBuffer key flags sb w r =
     (case r of ((encoded, err), hs) \<Rightarrow>
        (case HandleError ec err of
           Some e \<Rightarrow> Inr (Some e, w\<lparr>heap := hs\<rparr>, memBuffer)
         | None \<Rightarrow>
             (let w' = w\<lparr>heap := hs,
                         bufs := (bufs w)(sb := (bufs w sb)\<lparr>RowValBuf := encoded\<rparr>)\<rparr>
              in if length flags = 0 then
                   (case Set memBuffer (store memBuffer) key (view (bytes hs) encoded) of
                      (e, m) \<Rightarrow> Inr (e, w', memBuffer\<lparr>store := m\<rparr>))
                 else
                   (case SetWithFlags memBuffer (store memBuffer) key
                           (view (bytes hs) encoded) flags of
                      (e, m) \<Rightarrow> Inr (e, w', memBuffer\<lparr>store := m\<rparr>)))))"

text \<open>
  \<^verbatim>\<open>func (b *EncodeRowBuffer) WriteMemBufferEncoded(cfg, loc, ec, memBuffer, key, handle,
  flags...) error\<close>. The method assigns no field of \<open>b\<close>; it returns the error, and the
  model with it the world and the store as the call leaves them.
\<close>

definition WriteMemBufferEncoded ::
  "nat \<Rightarrow> ('loc, 'd, 'h, 'enc, 'e) row_encoder \<Rightarrow> EncodeRowBuffer \<Rightarrow> 'enc RowEncodingConfig
     \<Rightarrow> 'loc \<Rightarrow> 'e Context \<Rightarrow> ('k, 'f, 'e, 'm) MemBuffer \<Rightarrow> 'k \<Rightarrow> 'h \<Rightarrow> 'f list
     \<Rightarrow> 'd::zero world \<Rightarrow> fault + ('e option \<times> 'd world \<times> ('k, 'f, 'e, 'm) MemBuffer)" where
  "WriteMemBufferEncoded limD EncodeRow b cfg loc ec memBuffer key handle flags w =
     (let checksum = (if IsRowLevelChecksumEnabled cfg then RawChecksum handle else NilChecksum)
      in case adjustAddRowValues limD b w of
           Inl f \<Rightarrow> Inl f
         | Inr (sb, w1) \<Rightarrow>
             storeEncoded ec memBuffer key flags sb w1
               (EncodeRow loc (row b) (colIDs b) (RowValBuf (bufs w1 sb))
                  (AddRowValues (bufs w1 sb)) checksum (RowEncoder cfg) (heap w1)))"

subsection \<open>EncodeBinlogRowData\<close>

text \<open>
  Modelled from the spec: \<^verbatim>\<open>tablecodec.EncodeOldRow(loc, row, colIDs, valBuf, values)\<close> is
  not among the sources. The spec describes the row encoder as consuming the locale, the
  values, the column ids and the scratch buffers and returning the encoded bytes and an
  error, the bytes being delivered in the primary scratch buffer so that its backing
  allocation is reused, and as a standalone sequence where there is no scratch buffer to
  reuse. The byte format is not defined by this component: it is the parameter
  \<open>oldRowFormat\<close>, a function of the values and column ids that the two slices show. The
  encoder writes the bytes from the start of \<open>valBuf\<close> (\<^verbatim>\<open>append(valBuf[:0], bytes...)\<close>).
  The secondary area \<open>values\<close> is working storage whose contents the spec leaves open; it
  is not written here.
\<close>

definition EncodeOldRow ::
  "(nat \<Rightarrow> nat) \<Rightarrow> ('loc \<Rightarrow> 'd list \<Rightarrow> int64 list \<Rightarrow> byte list \<times> 'e option) \<Rightarrow> 'loc
     \<Rightarrow> slice \<Rightarrow> slice \<Rightarrow> slice \<Rightarrow> slice \<Rightarrow> 'd heaps \<Rightarrow> (slice \<times> 'e option) \<times> 'd heaps" where
  "EncodeOldRow slackB oldRowFormat loc r c valBuf values hs =
     (case oldRowFormat loc (view (datums hs) r) (view (int64s hs) c) of
        (bs, err) \<Rightarrow>
          (case append_slice slackB (bytes hs) (valBuf\<lparr>len := 0\<rparr>) bs of
             (out, hB) \<Rightarrow> ((out, err), hs\<lparr>bytes := hB\<rparr>)))"

text \<open>
  \<^verbatim>\<open>func (b *EncodeRowBuffer) EncodeBinlogRowData(loc, ec) ([]byte, error)\<close>, over any
  encoder of the type of \<^verbatim>\<open>tablecodec.EncodeOldRow\<close>. The method assigns no field of \<open>b\<close>
  and does not touch the \<^verbatim>\<open>WriteStmtBufs\<close> object.
\<close>

definition EncodeBinlogRowData ::
  "('loc \<Rightarrow> slice \<Rightarrow> slice \<Rightarrow> slice \<Rightarrow> slice \<Rightarrow> 'd heaps \<Rightarrow> (slice \<times> 'e option) \<times> 'd heaps)
     \<Rightarrow> EncodeRowBuffer \<Rightarrow> 'loc \<Rightarrow> 'e Context \<Rightarrow> 'd heaps \<Rightarrow> (slice \<times> 'e option) \<times> 'd heaps" where
  "EncodeBinlogRowData encodeOldRow b loc ec hs =
     (case encodeOldRow loc (row b) (colIDs b) nil nil hs of
        ((v, err), hs') \<Rightarrow>
          (case HandleError ec err of
             Some e \<Rightarrow> ((nil, Some e), hs')
           | None \<Rightarrow> ((v, None), hs')))"

section \<open>CheckRowBuffer\<close>

text \<open>
  \<^verbatim>\<open>func (b *CheckRowBuffer) GetRowToCheck() chunk.Row\<close>. The type \<^verbatim>\<open>chunk.Row\<close> and the
  conversion \<^verbatim>\<open>chunk.MutRowFromDatums(...).ToRow()\<close> are declared outside the file: the
  conversion is the parameter \<open>toRow\<close>, a function of the values that the slice it is
  handed shows.
\<close>

definition GetRowToCheck :: "('d list \<Rightarrow> 'r) \<Rightarrow> CheckRowBuffer \<Rightarrow> 'd heaps \<Rightarrow> 'r" where
  "GetRowToCheck toRow b hs = toRow (view (datums hs) (rowToCheck b))"

text \<open>\<^verbatim>\<open>func (b *CheckRowBuffer) AddColVal(val types.Datum)\<close>\<close>

definition CheckRowBuffer_AddColVal ::
  "(nat \<Rightarrow> nat) \<Rightarrow> CheckRowBuffer \<Rightarrow> 'd \<Rightarrow> 'd::zero heaps \<Rightarrow> CheckRowBuffer \<times> 'd heaps" where
  "CheckRowBuffer_AddColVal slackD b val hs =
     (let (r, hD) = append_slice slackD (datums hs) (rowToCheck b) [val]
      in (b\<lparr>rowToCheck := r\<rparr>, hs\<lparr>datums := hD\<rparr>))"

text \<open>\<^verbatim>\<open>func (b *CheckRowBuffer) Reset(capacity int)\<close>\<close>

definition CheckRowBuffer_Reset ::
  "nat \<Rightarrow> CheckRowBuffer \<Rightarrow> int \<Rightarrow> 'd::zero heaps \<Rightarrow> fault + (CheckRowBuffer \<times> 'd heaps)" where
  "CheckRowBuffer_Reset limD b capacity hs =
     (case ensureCapacityAndReset limD (datums hs) (rowToCheck b) 0 [capacity] of
        Inl f \<Rightarrow> Inl f
      | Inr (r, hD) \<Rightarrow> Inr (b\<lparr>rowToCheck := r\<rparr>, hs\<lparr>datums := hD\<rparr>))"

text \<open>Sequences of \<^verbatim>\<open>AddColVal\<close> and of \<^verbatim>\<open>Reset\<close> calls on a check buffer, in order.\<close>

fun CheckRowBuffer_AddColVals ::
  "(nat \<Rightarrow> nat) \<Rightarrow> CheckRowBuffer \<Rightarrow> 'd list \<Rightarrow> 'd::zero heaps \<Rightarrow> CheckRowBuffer \<times> 'd heaps" where
  "CheckRowBuffer_AddColVals slackD b [] hs = (b, hs)"
| "CheckRowBuffer_AddColVals slackD b (val # vs) hs =
     (case CheckRowBuffer_AddColVal slackD b val hs of
        (b', hs') \<Rightarrow> CheckRowBuffer_AddColVals slackD b' vs hs')"

fun CheckRowBuffer_Resets ::
  "nat \<Rightarrow> CheckRowBuffer \<Rightarrow> int list \<Rightarrow> 'd::zero heaps
     \<Rightarrow> fault + (CheckRowBuffer \<times> 'd heaps)" where
  "CheckRowBuffer_Resets limD b [] hs = Inr (b, hs)"
| "CheckRowBuffer_Resets limD b (capacity # cs) hs =
     (case CheckRowBuffer_Reset limD b capacity hs of
        Inl f \<Rightarrow> Inl f
      | Inr (b', hs') \<Rightarrow> CheckRowBuffer_Resets limD b' cs hs')"

section \<open>MutateBuffers\<close>

text \<open>
  Modelled from the spec: \<^verbatim>\<open>intest.AssertNotNil\<close> is not among the sources. The spec
  says that the scratch-buffer reference must not be absent and that absence is a
  programming-error-level fault, not a recoverable condition: the assertion fails on nil.
\<close>

definition AssertNotNil :: "'a option \<Rightarrow> fault + unit" where
  "AssertNotNil obj = (case obj of None \<Rightarrow> Inl AssertionFailed | Some _ \<Rightarrow> Inr ())"

text \<open>
  \<^verbatim>\<open>func NewMutateBuffers(stmtBufs *variable.WriteStmtBufs) *MutateBuffers\<close>. The fields
  that the composite literals leave out have their zero values: nil slices.
\<close>

definition NewMutateBuffers :: "addr option \<Rightarrow> fault + MutateBuffers" where
  "NewMutateBuffers sb =
     (case AssertNotNil sb of
        Inl f \<Rightarrow> Inl f
      | Inr _ \<Rightarrow>
          Inr \<lparr>stmtBufs = sb,
               encodeRow = \<lparr>colIDs = nil, row = nil, writeStmtBufs = sb\<rparr>,
               checkRow = \<lparr>rowToCheck = nil\<rparr>\<rparr>)"

text \<open>
  \<^verbatim>\<open>GetEncodeRowBufferWithCap\<close> and \<^verbatim>\<open>GetCheckRowBufferWithCap\<close> reset the pool's own buffer
  and return it: the model returns the buffer and the pool that holds it.
\<close>

definition GetEncodeRowBufferWithCap ::
  "nat \<Rightarrow> nat \<Rightarrow> MutateBuffers \<Rightarrow> int \<Rightarrow> 'd::zero heaps
     \<Rightarrow> fault + (EncodeRowBuffer \<times> MutateBuffers \<times> 'd heaps)" where
  "GetEncodeRowBufferWithCap limI limD b capacity hs =
     (case EncodeRowBuffer_Reset limI limD (encodeRow b) capacity hs of
        Inl f \<Rightarrow> Inl f
      | Inr (buffer, hs') \<Rightarrow> Inr (buffer, b\<lparr>encodeRow := buffer\<rparr>, hs'))"

definition GetCheckRowBufferWithCap ::
  "nat \<Rightarrow> MutateBuffers \<Rightarrow> int \<Rightarrow> 'd::zero heaps
     \<Rightarrow> fault + (CheckRowBuffer \<times> MutateBuffers \<times> 'd heaps)" where
  "GetCheckRowBufferWithCap limD b capacity hs =
     (case CheckRowBuffer_Reset limD (checkRow b) capacity hs of
        Inl f \<Rightarrow> Inl f
      | Inr (buffer, hs') \<Rightarrow> Inr (buffer, b\<lparr>checkRow := buffer\<rparr>, hs'))"

text \<open>\<^verbatim>\<open>func (b *MutateBuffers) GetWriteStmtBufs() *variable.WriteStmtBufs\<close>\<close>

definition GetWriteStmtBufs :: "MutateBuffers \<Rightarrow> addr option" where
  "GetWriteStmtBufs b = stmtBufs b"

section \<open>Concrete inputs\<close>

text \<open>
  A buffer after \<^verbatim>\<open>Reset(3)\<close> and \<^verbatim>\<open>AddColVal(1, 10)\<close>, \<^verbatim>\<open>AddColVal(2, 20)\<close>, with naturals for
  the column values, bound to the scratch buffers at address 0, and a world that holds its
  two arrays and scratch buffers that have never been used.
\<close>

definition sampleBuffer :: EncodeRowBuffer where
  "sampleBuffer =
     \<lparr>colIDs = \<lparr>ptr = Some 0, len = 2, cap = 3\<rparr>,
      row = \<lparr>ptr = Some 0, len = 2, cap = 3\<rparr>,
      writeStmtBufs = Some 0\<rparr>"

definition sampleWorld :: "nat world" where
  "sampleWorld =
     \<lparr>heap = \<lparr>int64s = [[1, 2, 0]], datums = [[10, 20, 0]], bytes = []\<rparr>,
      bufs = (\<lambda>_. \<lparr>RowValBuf = nil, AddRowValues = nil\<rparr>)\<rparr>"

text \<open>
  An encoder that writes each value as one byte into an array that it allocates, an
  encoder that fails with error 5 and returns the scratch buffer as it got it, and, for
  the legacy encoder, a byte format that writes each value as one byte.
\<close>

definition sampleEncodeRow :: "(unit, nat, nat, unit, nat) row_encoder" where
  "sampleEncodeRow loc r c valBuf values checksum enc hs =
     (let bs = map of_nat (view (datums hs) r)
      in ((\<lparr>ptr = Some (length (bytes hs)), len = length bs, cap = length bs\<rparr>, None),
          hs\<lparr>bytes := bytes hs @ [bs]\<rparr>))"

definition failingEncodeRow :: "(unit, nat, nat, unit, nat) row_encoder" where
  "failingEncodeRow loc r c valBuf values checksum enc hs = ((valBuf, Some 5), hs)"

definition sampleFormat :: "unit \<Rightarrow> nat list \<Rightarrow> int64 list \<Rightarrow> byte list \<times> nat option" where
  "sampleFormat loc vs ids = (map of_nat vs, None)"

text \<open>
  A store that records each call (key, bytes, flags) and reports no error; an error
  context that propagates every error, and one that suppresses every error.
\<close>

definition recordingMemBuffer ::
  "(nat, nat, nat, (nat \<times> byte list \<times> nat list) list) MemBuffer" where
  "recordingMemBuffer =
     \<lparr>Set = (\<lambda>m k v. (None, m @ [(k, v, [])])),
      SetWithFlags = (\<lambda>m k v fl. (None, m @ [(k, v, fl)])),
      store = []\<rparr>"

definition propagate :: "nat Context" where
  "propagate = \<lparr>HandleError = (\<lambda>e. e)\<rparr>"

definition suppress :: "nat Context" where
  "suppress = \<lparr>HandleError = (\<lambda>e. None)\<rparr>"

definition sampleConfig :: "unit RowEncodingConfig" where
  "sampleConfig = \<lparr>IsRowLevelChecksumEnabled = False, RowEncoder = ()\<rparr>"

text \<open>
  Allocation limits of the size that a 64-bit platform has: \<^verbatim>\<open>maxAlloc\<close> is \<open>2 ^ 48\<close> bytes
  there, so an array of \<^verbatim>\<open>int64\<close> may have \<open>2 ^ 45\<close> elements; for the datums, whose size is
  declared outside the file, a limit of \<open>2 ^ 41\<close> elements stands for it.
\<close>

definition sampleLimI :: nat where
  "sampleLimI = 2 ^ 45"

definition sampleLimD :: nat where
  "sampleLimD = 2 ^ 41"

section \<open>Properties of the slice operations\<close>

lemma view_prefix:
  assumes "valid h t" and "take (length h) h' = h"
  shows "view h' t = view h t" and "valid h' t"
proof -
  have len: "length h \<le> length h'"
  proof -
    have "length (take (length h) h') = length h"
      using assms(2) by simp
    then show ?thesis by simp
  qed
  have nth: "h' ! p = h ! p" if "p < length h" for p
    using that assms(2) by (metis nth_take)
  show "view h' t = view h t"
    using assms(1) nth by (auto simp: view_def valid_def split: option.splits)
  show "valid h' t"
    using assms(1) nth len by (auto simp: valid_def split: option.splits)
qed

lemma view_len_zero: "len s = 0 \<Longrightarrow> view h s = []"
  by (simp add: view_def split: option.splits)

lemma view_length: "valid h s \<Longrightarrow> length (view h s) = len s"
  by (auto simp: valid_def view_def split: option.splits)

lemma ensureCapacityAndReset_prefix:
  "ensureCapacityAndReset lim h s n optCap = Inr (s', h') \<Longrightarrow> take (length h) h' = h"
  by (auto simp: ensureCapacityAndReset_def make_slice_def reslice_def Let_def
           split: if_splits)

lemma ensureCapacityAndReset_valid:
  "valid h s \<Longrightarrow> ensureCapacityAndReset lim h s n optCap = Inr (s', h')
     \<Longrightarrow> valid h' s' \<and> int (len s') = n"
  by (auto simp: ensureCapacityAndReset_def make_slice_def reslice_def Let_def valid_def
           split: if_splits option.splits)

lemma append_slice_view:
  assumes "valid h s" and "append_slice slack h s vs = (s', h')"
  shows "valid h' s' \<and> view h' s' = view h s @ vs \<and> len s' = len s + length vs"
proof (cases "len s + length vs \<le> cap s")
  case True
  show ?thesis
  proof (cases "ptr s")
    case None
    then show ?thesis
      using assms True by (auto simp: append_slice_def valid_def view_def)
  next
    case (Some p)
    have p: "p < length h" and c: "cap s \<le> length (h ! p)" and l: "len s \<le> cap s"
      using assms(1) Some by (auto simp: valid_def)
    have s': "s' = s\<lparr>len := len s + length vs\<rparr>"
      and h': "h' = h[p := take (len s) (h ! p) @ vs @ drop (len s + length vs) (h ! p)]"
      using assms(2) True Some by (auto simp: append_slice_def)
    have arr: "h' ! p = take (len s) (h ! p) @ vs @ drop (len s + length vs) (h ! p)"
      using h' p by simp
    have "length (h' ! p) = length (h ! p)"
      using arr True c by simp
    moreover have "take (len s + length vs) (h' ! p) = take (len s) (h ! p) @ vs"
      using arr True c by simp
    ultimately show ?thesis
      using s' h' p c True Some by (simp add: valid_def view_def)
  qed
next
  case False
  have "length (view h s) = len s"
    using assms(1) by (auto simp: valid_def view_def split: option.splits)
  then show ?thesis
    using assms False
    by (auto simp: append_slice_def growslice_def valid_def view_def)
qed

text \<open>A reset to length 0 with a capacity hint: when it returns, and what it returns.\<close>

lemma ensureCapacityAndReset_zero_returns:
  "c \<le> int (cap s) \<or> c \<le> int lim
     \<Longrightarrow> \<exists>s' h'. ensureCapacityAndReset lim h s 0 [c] = Inr (s', h')"
  by (auto simp: ensureCapacityAndReset_def make_slice_def reslice_def Let_def)

lemma ensureCapacityAndReset_zero_faults:
  "int (cap s) < c \<Longrightarrow> int lim < c
     \<Longrightarrow> ensureCapacityAndReset lim h s 0 [c] = Inl MakeSliceCapOutOfRange"
  by (auto simp: ensureCapacityAndReset_def make_slice_def reslice_def Let_def)

lemma ensureCapacityAndReset_zero_result:
  "ensureCapacityAndReset lim h s 0 [c] = Inr (s', h')
     \<Longrightarrow> len s' = 0 \<and> cap s \<le> cap s' \<and> c \<le> int (cap s')"
  by (auto simp: ensureCapacityAndReset_def make_slice_def reslice_def Let_def
           split: if_splits)

lemma ensureCapacityAndReset_no_hint:
  "k \<le> cap s \<or> k \<le> lim
     \<Longrightarrow> \<exists>s' h'. ensureCapacityAndReset lim h s (int k) [] = Inr (s', h') \<and> len s' = k"
  by (auto simp: ensureCapacityAndReset_def make_slice_def reslice_def Let_def)

lemma EncodeRowBuffer_Reset_returns:
  assumes "c \<le> int (cap (colIDs b)) \<or> c \<le> int limI"
    and "c \<le> int (cap (row b)) \<or> c \<le> int limD"
  shows "\<exists>b' hs'. EncodeRowBuffer_Reset limI limD b c hs = Inr (b', hs')"
proof -
  obtain s1 h1 where 1:
    "ensureCapacityAndReset limI (int64s hs) (colIDs b) 0 [c] = Inr (s1, h1)"
    using ensureCapacityAndReset_zero_returns [OF assms(1)] by blast
  obtain s2 h2 where 2:
    "ensureCapacityAndReset limD (datums hs) (row b) 0 [c] = Inr (s2, h2)"
    using ensureCapacityAndReset_zero_returns [OF assms(2)] by blast
  show ?thesis
    using 1 2 by (simp add: EncodeRowBuffer_Reset_def)
qed

lemma EncodeRowBuffer_Reset_parts:
  assumes "EncodeRowBuffer_Reset limI limD b c hs = Inr (b', hs')"
  obtains hI hD where
    "ensureCapacityAndReset limI (int64s hs) (colIDs b) 0 [c] = Inr (colIDs b', hI)"
    and "ensureCapacityAndReset limD (datums hs) (row b) 0 [c] = Inr (row b', hD)"
    and "b' = b\<lparr>colIDs := colIDs b', row := row b'\<rparr>"
    and "hs' = hs\<lparr>int64s := hI, datums := hD\<rparr>"
  using assms
  by (auto simp: EncodeRowBuffer_Reset_def split: sum.splits prod.splits)

lemma EncodeRowBuffer_Reset_result:
  assumes "EncodeRowBuffer_Reset limI limD b c hs = Inr (b', hs')"
  shows "cap (colIDs b) \<le> cap (colIDs b') \<and> cap (row b) \<le> cap (row b')
     \<and> c \<le> int (cap (colIDs b')) \<and> c \<le> int (cap (row b'))
     \<and> len (colIDs b') = 0 \<and> len (row b') = 0
     \<and> writeStmtBufs b' = writeStmtBufs b \<and> bytes hs' = bytes hs"
proof -
  from assms obtain hI hD where 1:
    "ensureCapacityAndReset limI (int64s hs) (colIDs b) 0 [c] = Inr (colIDs b', hI)"
    "ensureCapacityAndReset limD (datums hs) (row b) 0 [c] = Inr (row b', hD)"
    and b': "b' = b\<lparr>colIDs := colIDs b', row := row b'\<rparr>"
    and hs': "hs' = hs\<lparr>int64s := hI, datums := hD\<rparr>"
    by (rule EncodeRowBuffer_Reset_parts)
  have "writeStmtBufs b' = writeStmtBufs b"
    by (subst b') simp
  moreover have "bytes hs' = bytes hs"
    by (subst hs') simp
  ultimately show ?thesis
    using ensureCapacityAndReset_zero_result [OF 1(1)]
      ensureCapacityAndReset_zero_result [OF 1(2)] by simp
qed

lemma EncodeRowBuffer_Reset_valid:
  assumes "valid (int64s hs) (colIDs b)" and "valid (datums hs) (row b)"
    and "EncodeRowBuffer_Reset limI limD b c hs = Inr (b1, hs1)"
  shows "valid (int64s hs1) (colIDs b1) \<and> valid (datums hs1) (row b1)
     \<and> view (int64s hs1) (colIDs b1) = [] \<and> view (datums hs1) (row b1) = []"
proof -
  from assms(3) obtain hI hD where 1:
    "ensureCapacityAndReset limI (int64s hs) (colIDs b) 0 [c] = Inr (colIDs b1, hI)"
    "ensureCapacityAndReset limD (datums hs) (row b) 0 [c] = Inr (row b1, hD)"
    and hs1: "hs1 = hs\<lparr>int64s := hI, datums := hD\<rparr>"
    by (rule EncodeRowBuffer_Reset_parts)
  have "valid hI (colIDs b1)" and "valid hD (row b1)"
    using assms(1,2) 1 ensureCapacityAndReset_valid by blast+
  moreover have "len (colIDs b1) = 0" and "len (row b1) = 0"
    using ensureCapacityAndReset_zero_result [OF 1(1)]
      ensureCapacityAndReset_zero_result [OF 1(2)] by simp_all
  ultimately show ?thesis
    using hs1 by (simp add: view_len_zero)
qed

lemma CheckRowBuffer_Reset_returns:
  assumes "c \<le> int (cap (rowToCheck b)) \<or> c \<le> int limD"
  shows "\<exists>b' hs'. CheckRowBuffer_Reset limD b c hs = Inr (b', hs')"
proof -
  obtain s2 h2 where 2:
    "ensureCapacityAndReset limD (datums hs) (rowToCheck b) 0 [c] = Inr (s2, h2)"
    using ensureCapacityAndReset_zero_returns [OF assms] by blast
  show ?thesis
    using 2 by (simp add: CheckRowBuffer_Reset_def)
qed

lemma CheckRowBuffer_Reset_parts:
  assumes "CheckRowBuffer_Reset limD b c hs = Inr (b', hs')"
  obtains hD where
    "ensureCapacityAndReset limD (datums hs) (rowToCheck b) 0 [c] = Inr (rowToCheck b', hD)"
    and "hs' = hs\<lparr>datums := hD\<rparr>"
  using assms
  by (auto simp: CheckRowBuffer_Reset_def split: sum.splits prod.splits)

lemma CheckRowBuffer_Reset_result:
  assumes "CheckRowBuffer_Reset limD b c hs = Inr (b', hs')"
  shows "cap (rowToCheck b) \<le> cap (rowToCheck b') \<and> c \<le> int (cap (rowToCheck b'))
     \<and> len (rowToCheck b') = 0"
proof -
  from assms obtain hD where 1:
    "ensureCapacityAndReset limD (datums hs) (rowToCheck b) 0 [c] = Inr (rowToCheck b', hD)"
    by (rule CheckRowBuffer_Reset_parts)
  show ?thesis
    using ensureCapacityAndReset_zero_result [OF 1] by simp
qed

lemma CheckRowBuffer_Reset_valid:
  assumes "valid (datums hs) (rowToCheck b)"
    and "CheckRowBuffer_Reset limD b c hs = Inr (b1, hs1)"
  shows "valid (datums hs1) (rowToCheck b1) \<and> view (datums hs1) (rowToCheck b1) = []"
proof -
  from assms(2) obtain hD where 1:
    "ensureCapacityAndReset limD (datums hs) (rowToCheck b) 0 [c] = Inr (rowToCheck b1, hD)"
    and hs1: "hs1 = hs\<lparr>datums := hD\<rparr>"
    by (rule CheckRowBuffer_Reset_parts)
  have "valid hD (rowToCheck b1)"
    using assms(1) 1 ensureCapacityAndReset_valid by blast
  moreover have "len (rowToCheck b1) = 0"
    using ensureCapacityAndReset_zero_result [OF 1] by simp
  ultimately show ?thesis
    using hs1 by (simp add: view_len_zero)
qed

lemma EncodeRowBuffer_Resets_result:
  "EncodeRowBuffer_Resets limI limD b cs hs = Inr (b', hs')
     \<Longrightarrow> cap (colIDs b) \<le> cap (colIDs b') \<and> cap (row b) \<le> cap (row b')"
proof (induction cs arbitrary: b hs)
  case Nil
  then show ?case by simp
next
  case (Cons c cs)
  from Cons.prems obtain b1 hs1 where 1:
    "EncodeRowBuffer_Reset limI limD b c hs = Inr (b1, hs1)"
    and 2: "EncodeRowBuffer_Resets limI limD b1 cs hs1 = Inr (b', hs')"
    by (auto split: sum.splits)
  show ?case
    using EncodeRowBuffer_Reset_result [OF 1] Cons.IH [OF 2] by simp
qed

lemma EncodeRowBuffer_Resets_returns:
  "\<forall>c\<in>set cs. c \<le> int limI \<and> c \<le> int limD
     \<Longrightarrow> \<exists>b' hs'. EncodeRowBuffer_Resets limI limD b cs hs = Inr (b', hs')"
proof (induction cs arbitrary: b hs)
  case Nil
  show ?case by simp
next
  case (Cons c cs)
  obtain b1 hs1 where 1: "EncodeRowBuffer_Reset limI limD b c hs = Inr (b1, hs1)"
    using EncodeRowBuffer_Reset_returns [of c b limI limD hs] Cons.prems by auto
  obtain b2 hs2 where 2: "EncodeRowBuffer_Resets limI limD b1 cs hs1 = Inr (b2, hs2)"
    using Cons.IH [of b1 hs1] Cons.prems by auto
  show ?case
    using 1 2 by simp
qed

lemma CheckRowBuffer_Resets_result:
  "CheckRowBuffer_Resets limD b cs hs = Inr (b', hs')
     \<Longrightarrow> cap (rowToCheck b) \<le> cap (rowToCheck b')"
proof (induction cs arbitrary: b hs)
  case Nil
  then show ?case by simp
next
  case (Cons c cs)
  from Cons.prems obtain b1 hs1 where 1:
    "CheckRowBuffer_Reset limD b c hs = Inr (b1, hs1)"
    and 2: "CheckRowBuffer_Resets limD b1 cs hs1 = Inr (b', hs')"
    by (auto split: sum.splits)
  show ?case
    using CheckRowBuffer_Reset_result [OF 1] Cons.IH [OF 2] by simp
qed

lemma CheckRowBuffer_Resets_returns:
  "\<forall>c\<in>set cs. c \<le> int limD
     \<Longrightarrow> \<exists>b' hs'. CheckRowBuffer_Resets limD b cs hs = Inr (b', hs')"
proof (induction cs arbitrary: b hs)
  case Nil
  show ?case by simp
next
  case (Cons c cs)
  obtain b1 hs1 where 1: "CheckRowBuffer_Reset limD b c hs = Inr (b1, hs1)"
    using CheckRowBuffer_Reset_returns [of c b limD hs] Cons.prems by auto
  obtain b2 hs2 where 2: "CheckRowBuffer_Resets limD b1 cs hs1 = Inr (b2, hs2)"
    using Cons.IH [of b1 hs1] Cons.prems by auto
  show ?case
    using 1 2 by simp
qed

lemma EncodeRowBuffer_AddColVal_views:
  assumes "valid (int64s hs) (colIDs b)" and "valid (datums hs) (row b)"
    and "EncodeRowBuffer_AddColVal slackI slackD b colID val hs = (b', hs')"
  shows "valid (int64s hs') (colIDs b') \<and> valid (datums hs') (row b')
     \<and> view (int64s hs') (colIDs b') = view (int64s hs) (colIDs b) @ [colID]
     \<and> view (datums hs') (row b') = view (datums hs) (row b) @ [val]
     \<and> writeStmtBufs b' = writeStmtBufs b \<and> bytes hs' = bytes hs"
proof -
  obtain c hI where 1: "append_slice slackI (int64s hs) (colIDs b) [colID] = (c, hI)"
    by (cases "append_slice slackI (int64s hs) (colIDs b) [colID]")
  obtain r hD where 2: "append_slice slackD (datums hs) (row b) [val] = (r, hD)"
    by (cases "append_slice slackD (datums hs) (row b) [val]")
  have b': "b' = b\<lparr>colIDs := c, row := r\<rparr>" and hs': "hs' = hs\<lparr>int64s := hI, datums := hD\<rparr>"
    using assms(3) 1 2 by (simp_all add: EncodeRowBuffer_AddColVal_def)
  show ?thesis
    using append_slice_view [OF assms(1) 1] append_slice_view [OF assms(2) 2] b' hs'
    by simp
qed

lemma EncodeRowBuffer_AddColVals_views:
  assumes "valid (int64s hs) (colIDs b)" and "valid (datums hs) (row b)"
    and "EncodeRowBuffer_AddColVals slackI slackD b ps hs = (b', hs')"
  shows "valid (int64s hs') (colIDs b') \<and> valid (datums hs') (row b')
     \<and> view (int64s hs') (colIDs b') = view (int64s hs) (colIDs b) @ map fst ps
     \<and> view (datums hs') (row b') = view (datums hs) (row b) @ map snd ps
     \<and> writeStmtBufs b' = writeStmtBufs b \<and> bytes hs' = bytes hs"
  using assms
proof (induction ps arbitrary: b hs)
  case Nil
  then show ?case by simp
next
  case (Cons p ps)
  obtain colID val where p: "p = (colID, val)"
    by (cases p)
  obtain b1 hs1 where 1: "EncodeRowBuffer_AddColVal slackI slackD b colID val hs = (b1, hs1)"
    by (cases "EncodeRowBuffer_AddColVal slackI slackD b colID val hs")
  have 2: "EncodeRowBuffer_AddColVals slackI slackD b1 ps hs1 = (b', hs')"
    using Cons.prems(3) p 1 by simp
  note step = EncodeRowBuffer_AddColVal_views [OF Cons.prems(1) Cons.prems(2) 1]
  have "valid (int64s hs1) (colIDs b1)" and "valid (datums hs1) (row b1)"
    using step by simp_all
  from Cons.IH [OF this 2] step p show ?case
    by simp
qed

lemma CheckRowBuffer_AddColVals_views:
  assumes "valid (datums hs) (rowToCheck b)"
    and "CheckRowBuffer_AddColVals slackD b vs hs = (b', hs')"
  shows "valid (datums hs') (rowToCheck b')
     \<and> view (datums hs') (rowToCheck b') = view (datums hs) (rowToCheck b) @ vs"
  using assms
proof (induction vs arbitrary: b hs)
  case Nil
  then show ?case by simp
next
  case (Cons v vs)
  obtain r hD where 1: "append_slice slackD (datums hs) (rowToCheck b) [v] = (r, hD)"
    by (cases "append_slice slackD (datums hs) (rowToCheck b) [v]")
  have 2: "CheckRowBuffer_AddColVals slackD (b\<lparr>rowToCheck := r\<rparr>) vs (hs\<lparr>datums := hD\<rparr>)
             = (b', hs')"
    using Cons.prems(2) 1 by (simp add: CheckRowBuffer_AddColVal_def)
  note step = append_slice_view [OF Cons.prems(1) 1]
  have "valid (datums (hs\<lparr>datums := hD\<rparr>)) (rowToCheck (b\<lparr>rowToCheck := r\<rparr>))"
    using step by simp
  from Cons.IH [OF this 2] step show ?case
    by simp
qed

text \<open>A cycle that returns: a \<^verbatim>\<open>Reset\<close> and the \<^verbatim>\<open>AddColVal\<close> calls that follow it.\<close>

lemma EncodeRowBuffer_cycle:
  fixes hs :: "'d::zero heaps"
  assumes "valid (int64s hs) (colIDs b)" and "valid (datums hs) (row b)"
    and "EncodeRowBuffer_Reset limI limD b capacity hs = Inr (b1, hs1)"
    and "EncodeRowBuffer_AddColVals slackI slackD b1 ps hs1 = (b2, hs2)"
  shows "valid (int64s hs2) (colIDs b2) \<and> valid (datums hs2) (row b2)
     \<and> view (int64s hs2) (colIDs b2) = map fst ps
     \<and> view (datums hs2) (row b2) = map snd ps
     \<and> writeStmtBufs b2 = writeStmtBufs b \<and> bytes hs2 = bytes hs"
proof -
  note r = EncodeRowBuffer_Reset_valid [OF assms(1) assms(2) assms(3)]
  have v: "valid (int64s hs1) (colIDs b1)" "valid (datums hs1) (row b1)"
    using r by simp_all
  show ?thesis
    using EncodeRowBuffer_AddColVals_views [OF v assms(4)] r
      EncodeRowBuffer_Reset_result [OF assms(3)] by simp
qed

lemma CheckRowBuffer_cycle:
  fixes hs :: "'d::zero heaps"
  assumes "valid (datums hs) (rowToCheck b)"
    and "CheckRowBuffer_Reset limD b capacity hs = Inr (b1, hs1)"
    and "CheckRowBuffer_AddColVals slackD b1 vs hs1 = (b2, hs2)"
  shows "valid (datums hs2) (rowToCheck b2) \<and> view (datums hs2) (rowToCheck b2) = vs"
proof -
  note r = CheckRowBuffer_Reset_valid [OF assms(1) assms(2)]
  have v: "valid (datums hs1) (rowToCheck b1)"
    using r by simp
  show ?thesis
    using CheckRowBuffer_AddColVals_views [OF v assms(3)] r by simp
qed

lemma adjustAddRowValues_props:
  assumes "writeStmtBufs b = Some p"
    and "2 * len (row b) \<le> cap (AddRowValues (bufs w p)) \<or> 2 * len (row b) \<le> limD"
  shows "\<exists>w1. adjustAddRowValues limD b w = Inr (p, w1)
     \<and> len (AddRowValues (bufs w1 p)) = 2 * len (row b)
     \<and> RowValBuf (bufs w1 p) = RowValBuf (bufs w p)
     \<and> int64s (heap w1) = int64s (heap w) \<and> bytes (heap w1) = bytes (heap w)
     \<and> take (length (datums (heap w))) (datums (heap w1)) = datums (heap w)"
proof -
  obtain vals hD where 1:
    "ensureCapacityAndReset limD (datums (heap w)) (AddRowValues (bufs w p))
       (int (2 * len (row b))) [] = Inr (vals, hD)" "len vals = 2 * len (row b)"
    using ensureCapacityAndReset_no_hint [OF assms(2)] by blast
  have "take (length (datums (heap w))) hD = datums (heap w)"
    using 1(1) by (rule ensureCapacityAndReset_prefix)
  then show ?thesis
    using assms(1) 1 by (simp add: adjustAddRowValues_def mult.commute)
qed

lemma WriteMemBufferEncoded_run:
  assumes "adjustAddRowValues limD b w = Inr (p, w1)"
  shows "WriteMemBufferEncoded limD EncodeRow b cfg loc ec memBuffer key handle flags w =
     storeEncoded ec memBuffer key flags p w1
       (EncodeRow loc (row b) (colIDs b) (RowValBuf (bufs w1 p)) (AddRowValues (bufs w1 p))
          (if IsRowLevelChecksumEnabled cfg then RawChecksum handle else NilChecksum)
          (RowEncoder cfg) (heap w1))"
  using assms by (simp add: WriteMemBufferEncoded_def)

lemma append_slice_nil:
  assumes "append_slice slack h (nil\<lparr>len := 0\<rparr>) vs = (s', h')"
  shows "(ptr s' = None \<or> ptr s' = Some (length h)) \<and> take (length h) h' = h"
  using assms
  by (auto simp: append_slice_def growslice_def nil_def split: if_splits)

lemma EncodeOldRow_nil:
  assumes "EncodeOldRow slackB oldRowFormat loc r c nil values hs = ((v, err), hs')"
  shows "(ptr v = None \<or> ptr v = Some (length (bytes hs)))
     \<and> int64s hs' = int64s hs \<and> datums hs' = datums hs
     \<and> take (length (bytes hs)) (bytes hs') = bytes hs"
proof -
  obtain bs e where 1: "oldRowFormat loc (view (datums hs) r) (view (int64s hs) c) = (bs, e)"
    by (cases "oldRowFormat loc (view (datums hs) r) (view (int64s hs) c)")
  obtain out hB where 2: "append_slice slackB (bytes hs) (nil\<lparr>len := 0\<rparr>) bs = (out, hB)"
    by (cases "append_slice slackB (bytes hs) (nil\<lparr>len := 0\<rparr>) bs")
  have "v = out" and "hs' = hs\<lparr>bytes := hB\<rparr>"
    using assms 1 2 by (simp_all add: EncodeOldRow_def)
  then show ?thesis
    using append_slice_nil [OF 2] by simp
qed

lemma set_index_beyond:
  assumes "set_index h s i x = Inr h'" and "ptr s = None \<or> ptr s = Some p" and "n \<le> p"
  shows "take n h' = take n h"
  using assms by (auto simp: set_index_def split: if_splits option.splits)

lemma EncodeRowBuffer_Reset_faults:
  assumes "(int (cap (colIDs b)) < c \<and> int limI < c) \<or> (int (cap (row b)) < c \<and> int limD < c)"
  shows "\<exists>f. EncodeRowBuffer_Reset limI limD b c hs = Inl f"
  using assms
  by (auto simp: EncodeRowBuffer_Reset_def ensureCapacityAndReset_def make_slice_def
        reslice_def Let_def split: sum.splits)

lemma CheckRowBuffer_Reset_faults:
  assumes "int (cap (rowToCheck b)) < c \<and> int limD < c"
  shows "\<exists>f. CheckRowBuffer_Reset limD b c hs = Inl f"
  using assms
  by (auto simp: CheckRowBuffer_Reset_def ensureCapacityAndReset_def make_slice_def
        reslice_def Let_def split: sum.splits)

lemma adjustAddRowValues_faults:
  assumes "writeStmtBufs b = Some p"
    and "cap (AddRowValues (bufs w p)) < 2 * len (row b) \<and> limD < 2 * len (row b)"
  shows "\<exists>f. adjustAddRowValues limD b w = Inl f"
  using assms
  by (auto simp: adjustAddRowValues_def ensureCapacityAndReset_def make_slice_def
        reslice_def Let_def split: sum.splits)

section \<open>The claims\<close>

text \<open>
  C1 (amended). For every slice \<open>s\<close>, requested length \<open>n\<close> and capacity hint \<open>c\<close> (taken
  to be \<open>n\<close> when absent), with \<open>lim\<close> the allocation limit of the element type: when
  \<open>0 \<le> n \<le> max(c, cap(s))\<close> and the hint is within the capacity of the slice or within
  the allocation limit, \<^verbatim>\<open>ensureCapacityAndReset(s, n, c)\<close> returns a slice of length
  exactly \<open>n\<close>. If \<open>cap(s) \<ge> c\<close> it is the header \<open>s\<close> with only the length changed, and the
  store is as it was (no allocation, no copy, no element touched). If \<open>cap(s) < c\<close> it is a
  fresh array of capacity \<open>c\<close> holding zero values, added to a store otherwise as it
  was, so nothing is copied from \<open>s\<close>, and its pointer differs from that of \<open>s\<close>. In every
  other case, which is \<open>n\<close> negative, \<open>n\<close> above both \<open>c\<close> and \<open>cap(s)\<close>, or \<open>c\<close> above both
  \<open>cap(s)\<close> and the allocation limit, the call panics and returns no slice.
\<close>

theorem ensureCapacityAndReset_reuse_or_fresh:
  fixes h :: "'a::zero list list"
  assumes "c = (case optCap of [] \<Rightarrow> n | x # _ \<Rightarrow> x)"
  shows "(0 \<le> n \<and> n \<le> max c (int (cap s)) \<and> (c \<le> int (cap s) \<or> c \<le> int lim) \<longrightarrow>
      (\<exists>s' h'. ensureCapacityAndReset lim h s n optCap = Inr (s', h') \<and> int (len s') = n
         \<and> (c \<le> int (cap s) \<longrightarrow> s' = s\<lparr>len := nat n\<rparr> \<and> h' = h)
         \<and> (int (cap s) < c \<longrightarrow>
              ptr s' = Some (length h) \<and> int (cap s') = c \<and> h' = h @ [replicate (nat c) 0]
              \<and> view h' s' = replicate (nat n) 0 \<and> (valid h s \<longrightarrow> ptr s' \<noteq> ptr s))))
   \<and> (n < 0 \<or> max c (int (cap s)) < n \<or> (int (cap s) < c \<and> int lim < c) \<longrightarrow>
      (\<exists>f. ensureCapacityAndReset lim h s n optCap = Inl f))"
  using assms
  by (cases optCap)
     (auto simp: ensureCapacityAndReset_def make_slice_def reslice_def view_def valid_def
           split: option.splits)

text \<open>
  Witness for C1: a slice of capacity 3 over the array \<open>[7, 8, 9]\<close> is reused for length 2
  with hint 3 and replaced by a fresh zeroed array for length 2 with hint 4; length 5 with
  hint 4 panics, and so does the hint \<open>2 ^ 62\<close>, which is above the allocation limit.
\<close>

theorem ensureCapacityAndReset_reuse_or_fresh_witness:
  "ensureCapacityAndReset sampleLimI [[7, 8, 9 :: int64]] \<lparr>ptr = Some 0, len = 3, cap = 3\<rparr> 2 [3]
     = Inr (\<lparr>ptr = Some 0, len = 2, cap = 3\<rparr>, [[7, 8, 9]])
   \<and> ensureCapacityAndReset sampleLimI [[7, 8, 9 :: int64]] \<lparr>ptr = Some 0, len = 3, cap = 3\<rparr> 2 [4]
     = Inr (\<lparr>ptr = Some 1, len = 2, cap = 4\<rparr>, [[7, 8, 9], [0, 0, 0, 0]])
   \<and> (\<exists>f. ensureCapacityAndReset sampleLimI [[7, 8, 9 :: int64]]
          \<lparr>ptr = Some 0, len = 3, cap = 3\<rparr> 5 [4] = Inl f)
   \<and> (\<exists>f. ensureCapacityAndReset sampleLimI [[7, 8, 9 :: int64]]
          \<lparr>ptr = Some 0, len = 3, cap = 3\<rparr> 0 [2 ^ 62] = Inl f)"
proof -
  let ?h = "[[7, 8, 9 :: int64]]"
  let ?s = "\<lparr>ptr = Some 0, len = 3, cap = 3\<rparr>"
  have four: "replicate (nat 4) (0 :: int64) = [0, 0, 0, 0]"
    by (simp add: numeral_eq_Suc)
  have lim: "(4 :: int) \<le> int sampleLimI" "int sampleLimI < 2 ^ 62"
    by (simp_all add: sampleLimI_def)
  have 1: "ensureCapacityAndReset sampleLimI ?h ?s 2 [3] = Inr (\<lparr>ptr = Some 0, len = 2, cap = 3\<rparr>, ?h)"
    using ensureCapacityAndReset_reuse_or_fresh [where lim = sampleLimI and h = ?h and s = ?s and n = 2 and c = 3
        and optCap = "[3]"]
    by auto
  have 2: "ensureCapacityAndReset sampleLimI ?h ?s 2 [4]
      = Inr (\<lparr>ptr = Some 1, len = 2, cap = 4\<rparr>, [[7, 8, 9], [0, 0, 0, 0]])"
    using ensureCapacityAndReset_reuse_or_fresh [where lim = sampleLimI and h = ?h and s = ?s and n = 2 and c = 4
        and optCap = "[4]"] lim(1) four
    by auto
  have 3: "\<exists>f. ensureCapacityAndReset sampleLimI ?h ?s 5 [4] = Inl f"
    using ensureCapacityAndReset_reuse_or_fresh [where lim = sampleLimI and h = ?h and s = ?s and n = 5 and c = 4
        and optCap = "[4]"]
    by simp
  have 4: "\<exists>f. ensureCapacityAndReset sampleLimI ?h ?s 0 [2 ^ 62] = Inl f"
    using ensureCapacityAndReset_reuse_or_fresh [where lim = sampleLimI and h = ?h and s = ?s and n = 0 and c = "2 ^ 62"
        and optCap = "[2 ^ 62]"] lim(2)
    by simp
  show ?thesis
    using 1 2 3 4 by simp
qed

text \<open>
  Counterexample to C1 as stated (every \<open>n\<close> and \<open>c\<close>): on the nil slice, length 3 with
  capacity hint 2 reaches \<^verbatim>\<open>make([]T, 3, 2)\<close>, which panics; no slice is returned.
\<close>

theorem ensureCapacityAndReset_len_above_hint_faults:
  "ensureCapacityAndReset sampleLimI ([] :: int64 list list) nil 3 [2]
     = Inl MakeSliceCapOutOfRange"
  by (simp add: ensureCapacityAndReset_def make_slice_def reslice_def nil_def sampleLimI_def)

text \<open>
  C2. For every \<^verbatim>\<open>EncodeRowBuffer\<close> (its two slices valid, as every Go slice is) and every
  list of \<open>k \<ge> 0\<close> pairs: \<^verbatim>\<open>Reset(capacity)\<close> returns when the capacity is within the
  allocation limits, and in every run in which it returns, after one \<^verbatim>\<open>AddColVal(id, v)\<close>
  per pair both slices have length \<open>k\<close>, \<^verbatim>\<open>colIDs\<close> shows the ids and \<^verbatim>\<open>row\<close> the values, in
  the order of the calls. When the buffer is bound to scratch buffers and the \<open>2 * k\<close>
  cells of \<^verbatim>\<open>AddRowValues\<close> are within its capacity or within the allocation limit,
  \<^verbatim>\<open>WriteMemBufferEncoded\<close> adjusts the scratch buffers without fault and calls the
  encoder with \<^verbatim>\<open>b.row\<close> and \<^verbatim>\<open>b.colIDs\<close>, in a store in which the two slices still show
  exactly these values and ids, position by position; what the encoder returns goes to
  the lines that handle the error and write the store.
\<close>

theorem AddColVal_positional_correspondence:
  fixes hs :: "'d::zero heaps"
  assumes "valid (int64s hs) (colIDs b)" and "valid (datums hs) (row b)"
  shows "(capacity \<le> int limI \<and> capacity \<le> int limD \<longrightarrow>
        (\<exists>b1 hs1. EncodeRowBuffer_Reset limI limD b capacity hs = Inr (b1, hs1)))
   \<and> (EncodeRowBuffer_Reset limI limD b capacity hs = Inr (b1, hs1)
        \<and> EncodeRowBuffer_AddColVals slackI slackD b1 ps hs1 = (b2, hs2) \<longrightarrow>
       len (colIDs b2) = length ps \<and> len (row b2) = length ps
     \<and> view (int64s hs2) (colIDs b2) = map fst ps
     \<and> view (datums hs2) (row b2) = map snd ps
     \<and> (writeStmtBufs b = Some p
          \<and> (2 * length ps \<le> cap (AddRowValues (sbs p)) \<or> 2 * length ps \<le> limD) \<longrightarrow>
          (\<exists>w1. adjustAddRowValues limD b2 \<lparr>heap = hs2, bufs = sbs\<rparr> = Inr (p, w1)
             \<and> view (int64s (heap w1)) (colIDs b2) = map fst ps
             \<and> view (datums (heap w1)) (row b2) = map snd ps
             \<and> WriteMemBufferEncoded limD EncodeRow b2 cfg loc ec memBuffer key handle flags
                  \<lparr>heap = hs2, bufs = sbs\<rparr> =
                storeEncoded ec memBuffer key flags p w1
                  (EncodeRow loc (row b2) (colIDs b2) (RowValBuf (bufs w1 p))
                     (AddRowValues (bufs w1 p))
                     (if IsRowLevelChecksumEnabled cfg then RawChecksum handle
                      else NilChecksum)
                     (RowEncoder cfg) (heap w1)))))"
proof (intro conjI impI)
  assume "capacity \<le> int limI \<and> capacity \<le> int limD"
  then show "\<exists>b1 hs1. EncodeRowBuffer_Reset limI limD b capacity hs = Inr (b1, hs1)"
    using EncodeRowBuffer_Reset_returns [of capacity b limI limD hs] by blast
next
  assume run: "EncodeRowBuffer_Reset limI limD b capacity hs = Inr (b1, hs1)
        \<and> EncodeRowBuffer_AddColVals slackI slackD b1 ps hs1 = (b2, hs2)"
  note cyc = EncodeRowBuffer_cycle [OF assms conjunct1 [OF run] conjunct2 [OF run]]
  have v: "valid (int64s hs2) (colIDs b2)" "valid (datums hs2) (row b2)"
    and 2: "view (int64s hs2) (colIDs b2) = map fst ps"
    "view (datums hs2) (row b2) = map snd ps"
    and 3: "writeStmtBufs b2 = writeStmtBufs b"
    using cyc by simp_all
  show 4: "len (colIDs b2) = length ps" "len (row b2) = length ps"
    using v 2 view_length by (metis length_map)+
  show "view (int64s hs2) (colIDs b2) = map fst ps"
    and "view (datums hs2) (row b2) = map snd ps"
    using 2 by simp_all
  assume p: "writeStmtBufs b = Some p
          \<and> (2 * length ps \<le> cap (AddRowValues (sbs p)) \<or> 2 * length ps \<le> limD)"
  let ?w = "\<lparr>heap = hs2, bufs = sbs\<rparr>"
  have "writeStmtBufs b2 = Some p"
    using 3 p by simp
  moreover have "2 * len (row b2) \<le> cap (AddRowValues (bufs ?w p)) \<or> 2 * len (row b2) \<le> limD"
    using p 4(2) by simp
  ultimately obtain w1 where a: "adjustAddRowValues limD b2 ?w = Inr (p, w1)"
    "int64s (heap w1) = int64s (heap ?w)"
    "take (length (datums (heap ?w))) (datums (heap w1)) = datums (heap ?w)"
    using adjustAddRowValues_props [of b2 p ?w limD] by blast
  have a3: "take (length (datums hs2)) (datums (heap w1)) = datums hs2"
    using a(3) by simp
  have d: "view (datums (heap w1)) (row b2) = map snd ps"
    using view_prefix(1) [OF v(2) a3] 2(2) by simp
  have i: "view (int64s (heap w1)) (colIDs b2) = map fst ps"
    using a(2) 2(1) by simp
  have r: "WriteMemBufferEncoded limD EncodeRow b2 cfg loc ec memBuffer key handle flags ?w =
                storeEncoded ec memBuffer key flags p w1
                  (EncodeRow loc (row b2) (colIDs b2) (RowValBuf (bufs w1 p))
                     (AddRowValues (bufs w1 p))
                     (if IsRowLevelChecksumEnabled cfg then RawChecksum handle
                      else NilChecksum)
                     (RowEncoder cfg) (heap w1))"
    by (rule WriteMemBufferEncoded_run [OF a(1)])
  show "\<exists>w1. adjustAddRowValues limD b2 ?w = Inr (p, w1)
             \<and> view (int64s (heap w1)) (colIDs b2) = map fst ps
             \<and> view (datums (heap w1)) (row b2) = map snd ps
             \<and> WriteMemBufferEncoded limD EncodeRow b2 cfg loc ec memBuffer key handle flags ?w =
                storeEncoded ec memBuffer key flags p w1
                  (EncodeRow loc (row b2) (colIDs b2) (RowValBuf (bufs w1 p))
                     (AddRowValues (bufs w1 p))
                     (if IsRowLevelChecksumEnabled cfg then RawChecksum handle
                      else NilChecksum)
                     (RowEncoder cfg) (heap w1))"
    using a(1) d i r by blast
qed

text \<open>
  Witness for C2: from the empty buffer, \<^verbatim>\<open>Reset(3)\<close>, \<^verbatim>\<open>AddColVal(1, 10)\<close> and
  \<^verbatim>\<open>AddColVal(2, 20)\<close> give the sample buffer in the sample world, and the encoder is
  called with its slices, which show \<open>[1, 2]\<close> and \<open>[10, 20]\<close>.
\<close>

theorem AddColVal_positional_correspondence_witness:
  "EncodeRowBuffer_Reset sampleLimI sampleLimD \<lparr>colIDs = nil, row = nil, writeStmtBufs = Some 0\<rparr> 3
       \<lparr>int64s = [], datums = [] :: nat list list, bytes = []\<rparr>
     = Inr (\<lparr>colIDs = \<lparr>ptr = Some 0, len = 0, cap = 3\<rparr>,
             row = \<lparr>ptr = Some 0, len = 0, cap = 3\<rparr>, writeStmtBufs = Some 0\<rparr>,
            \<lparr>int64s = [[0, 0, 0]], datums = [[0, 0, 0]], bytes = []\<rparr>)
   \<and> EncodeRowBuffer_AddColVals (\<lambda>_. 0) (\<lambda>_. 0)
       \<lparr>colIDs = \<lparr>ptr = Some 0, len = 0, cap = 3\<rparr>,
        row = \<lparr>ptr = Some 0, len = 0, cap = 3\<rparr>, writeStmtBufs = Some 0\<rparr>
       [(1, 10), (2, 20)]
       \<lparr>int64s = [[0, 0, 0]], datums = [[0, 0, 0 :: nat]], bytes = []\<rparr>
     = (sampleBuffer, heap sampleWorld)
   \<and> len (colIDs sampleBuffer) = 2 \<and> len (row sampleBuffer) = 2
   \<and> view (int64s (heap sampleWorld)) (colIDs sampleBuffer) = [1, 2]
   \<and> view (datums (heap sampleWorld)) (row sampleBuffer) = [10, 20]
   \<and> (\<exists>w1. adjustAddRowValues sampleLimD sampleBuffer sampleWorld = Inr (0, w1)
          \<and> view (int64s (heap w1)) (colIDs sampleBuffer) = [1, 2]
          \<and> view (datums (heap w1)) (row sampleBuffer) = [10, 20]
          \<and> WriteMemBufferEncoded sampleLimD sampleEncodeRow sampleBuffer sampleConfig ()
               propagate recordingMemBuffer 7 0 [] sampleWorld =
             storeEncoded propagate recordingMemBuffer 7 [] 0 w1
               (sampleEncodeRow () (row sampleBuffer) (colIDs sampleBuffer)
                  (RowValBuf (bufs w1 0)) (AddRowValues (bufs w1 0)) NilChecksum ()
                  (heap w1)))"
proof -
  let ?b = "\<lparr>colIDs = nil, row = nil, writeStmtBufs = Some 0\<rparr>"
  let ?hs = "\<lparr>int64s = [], datums = [] :: nat list list, bytes = []\<rparr>"
  let ?b1 = "\<lparr>colIDs = \<lparr>ptr = Some 0, len = 0, cap = 3\<rparr>,
             row = \<lparr>ptr = Some 0, len = 0, cap = 3\<rparr>, writeStmtBufs = Some 0\<rparr>"
  let ?hs1 = "\<lparr>int64s = [[0, 0, 0]], datums = [[0, 0, 0 :: nat]], bytes = []\<rparr>"
  have lim: "(3 :: int) \<le> int sampleLimI" "(3 :: int) \<le> int sampleLimD" "4 \<le> sampleLimD"
    by (simp_all add: sampleLimI_def sampleLimD_def)
  have three: "replicate (nat 3) (0 :: int64) = [0, 0, 0]"
    "replicate (nat 3) (0 :: nat) = [0, 0, 0]"
    by (simp_all add: numeral_eq_Suc)
  have run1: "EncodeRowBuffer_Reset sampleLimI sampleLimD ?b 3 ?hs = Inr (?b1, ?hs1)"
    using lim three
    by (simp add: EncodeRowBuffer_Reset_def ensureCapacityAndReset_def make_slice_def nil_def)
  have run2: "EncodeRowBuffer_AddColVals (\<lambda>_. 0) (\<lambda>_. 0) ?b1 [(1, 10), (2, 20)] ?hs1
      = (sampleBuffer, heap sampleWorld)"
    by (simp add: EncodeRowBuffer_AddColVal_def append_slice_def sampleBuffer_def
          sampleWorld_def)
  have w: "\<lparr>heap = heap sampleWorld, bufs = bufs sampleWorld\<rparr> = sampleWorld"
    by simp
  have v: "valid (int64s ?hs) (colIDs ?b)" "valid (datums ?hs) (row ?b)"
    by (simp_all add: valid_def nil_def)
  have p: "writeStmtBufs ?b = Some 0
      \<and> (2 * length [(1 :: int64, 10 :: nat), (2, 20)]
            \<le> cap (AddRowValues (bufs sampleWorld 0))
         \<or> 2 * length [(1 :: int64, 10 :: nat), (2, 20)] \<le> sampleLimD)"
    using lim(3) by simp
  note inst = AddColVal_positional_correspondence [OF v, where capacity = 3 and limI = sampleLimI and limD = sampleLimD
      and ?b1.0 = ?b1 and ?hs1.0 = ?hs1 and slackI = "\<lambda>_. 0" and slackD = "\<lambda>_. 0"
      and ps = "[(1, 10), (2, 20)]" and ?b2.0 = sampleBuffer and ?hs2.0 = "heap sampleWorld"
      and p = 0 and sbs = "bufs sampleWorld"
      and EncodeRow = sampleEncodeRow and cfg = sampleConfig and loc = "()" and ec = propagate
      and memBuffer = recordingMemBuffer and key = 7 and handle = 0 and flags = "[]"]
  note concl = inst [THEN conjunct2, rule_format, OF conjI [OF run1 run2]]
  have basic: "len (colIDs sampleBuffer) = length [(1 :: int64, 10 :: nat), (2, 20)]
      \<and> len (row sampleBuffer) = length [(1 :: int64, 10 :: nat), (2, 20)]
      \<and> view (int64s (heap sampleWorld)) (colIDs sampleBuffer)
          = map fst [(1 :: int64, 10 :: nat), (2, 20)]
      \<and> view (datums (heap sampleWorld)) (row sampleBuffer)
          = map snd [(1 :: int64, 10 :: nat), (2, 20)]"
    using concl by blast
  have enc: "\<exists>w1. adjustAddRowValues sampleLimD sampleBuffer
                 \<lparr>heap = heap sampleWorld, bufs = bufs sampleWorld\<rparr> = Inr (0, w1)
          \<and> view (int64s (heap w1)) (colIDs sampleBuffer)
              = map fst [(1 :: int64, 10 :: nat), (2, 20)]
          \<and> view (datums (heap w1)) (row sampleBuffer)
              = map snd [(1 :: int64, 10 :: nat), (2, 20)]
          \<and> WriteMemBufferEncoded sampleLimD sampleEncodeRow sampleBuffer sampleConfig ()
               propagate recordingMemBuffer 7 0 []
               \<lparr>heap = heap sampleWorld, bufs = bufs sampleWorld\<rparr> =
             storeEncoded propagate recordingMemBuffer 7 [] 0 w1
               (sampleEncodeRow () (row sampleBuffer) (colIDs sampleBuffer)
                  (RowValBuf (bufs w1 0)) (AddRowValues (bufs w1 0))
                  (if IsRowLevelChecksumEnabled sampleConfig then RawChecksum 0
                   else NilChecksum)
                  (RowEncoder sampleConfig) (heap w1))"
    using concl p by blast
  have cfg: "\<not> IsRowLevelChecksumEnabled sampleConfig" "RowEncoder sampleConfig = ()"
    by (simp_all add: sampleConfig_def)
  show ?thesis
    using run1 run2 basic enc
    by (simp add: w cfg numeral_2_eq_2)
qed

text \<open>
  C3. For an \<^verbatim>\<open>EncodeRowBuffer\<close> and for a \<^verbatim>\<open>CheckRowBuffer\<close>, in any state: in every run
  in which \<^verbatim>\<open>Reset(n)\<close> returns, each inner slice has a capacity of at least \<open>n\<close> and of at
  least what it had before; a following \<^verbatim>\<open>Reset(m)\<close> that returns, for any \<open>m\<close> (\<open>m < n\<close>
  among them), leaves each capacity at least what \<^verbatim>\<open>Reset(n)\<close> established, and so does
  any sequence of \<^verbatim>\<open>Reset\<close> calls that returns. The calls return when the capacities asked
  for are within the allocation limits. Every assignment that the two \<^verbatim>\<open>Reset\<close> methods
  make has the form \<^verbatim>\<open>x = ensureCapacityAndReset(x, 0, capacity)\<close>, and whenever that call
  returns, the capacity of its result is at least the capacity of \<open>x\<close> and at least the
  capacity asked for: a \<^verbatim>\<open>Reset\<close> that panics on its second slice has not lowered the
  capacity of the first.
\<close>

theorem Reset_capacity_never_shrinks:
  fixes h :: "'a::zero list list" and hs :: "'d::zero heaps"
  shows "(EncodeRowBuffer_Reset limI limD b n hs = Inr (b1, hs1) \<longrightarrow>
        n \<le> int (cap (colIDs b1)) \<and> n \<le> int (cap (row b1))
      \<and> cap (colIDs b) \<le> cap (colIDs b1) \<and> cap (row b) \<le> cap (row b1)
      \<and> (EncodeRowBuffer_Reset limI limD b1 m hs1 = Inr (b2, hs2) \<longrightarrow>
            cap (colIDs b1) \<le> cap (colIDs b2) \<and> cap (row b1) \<le> cap (row b2))
      \<and> (EncodeRowBuffer_Resets limI limD b1 cs hs1 = Inr (b3, hs3) \<longrightarrow>
            cap (colIDs b1) \<le> cap (colIDs b3) \<and> cap (row b1) \<le> cap (row b3)))
   \<and> (CheckRowBuffer_Reset limD cb n hs = Inr (c1, hc1) \<longrightarrow>
        n \<le> int (cap (rowToCheck c1)) \<and> cap (rowToCheck cb) \<le> cap (rowToCheck c1)
      \<and> (CheckRowBuffer_Reset limD c1 m hc1 = Inr (c2, hc2) \<longrightarrow>
            cap (rowToCheck c1) \<le> cap (rowToCheck c2))
      \<and> (CheckRowBuffer_Resets limD c1 cs hc1 = Inr (c3, hc3) \<longrightarrow>
            cap (rowToCheck c1) \<le> cap (rowToCheck c3)))
   \<and> (n \<le> int limI \<and> n \<le> int limD \<and> m \<le> int limI \<and> m \<le> int limD
        \<and> (\<forall>c\<in>set cs. c \<le> int limI \<and> c \<le> int limD) \<longrightarrow>
        (\<exists>b1 hs1 b2 hs2 b3 hs3.
            EncodeRowBuffer_Reset limI limD b n hs = Inr (b1, hs1)
          \<and> EncodeRowBuffer_Reset limI limD b1 m hs1 = Inr (b2, hs2)
          \<and> EncodeRowBuffer_Resets limI limD b1 cs hs1 = Inr (b3, hs3))
      \<and> (\<exists>c1 hc1 c2 hc2 c3 hc3.
            CheckRowBuffer_Reset limD cb n hs = Inr (c1, hc1)
          \<and> CheckRowBuffer_Reset limD c1 m hc1 = Inr (c2, hc2)
          \<and> CheckRowBuffer_Resets limD c1 cs hc1 = Inr (c3, hc3)))
   \<and> (ensureCapacityAndReset lim h s 0 [n] = Inr (s', h') \<longrightarrow>
        cap s \<le> cap s' \<and> n \<le> int (cap s'))"
proof (intro conjI impI)
  assume "ensureCapacityAndReset lim h s 0 [n] = Inr (s', h')"
  then show "cap s \<le> cap s'" "n \<le> int (cap s')"
    using ensureCapacityAndReset_zero_result by blast+
next
  assume 1: "EncodeRowBuffer_Reset limI limD b n hs = Inr (b1, hs1)"
  show "n \<le> int (cap (colIDs b1))" "n \<le> int (cap (row b1))"
    "cap (colIDs b) \<le> cap (colIDs b1)" "cap (row b) \<le> cap (row b1)"
    using EncodeRowBuffer_Reset_result [OF 1] by simp_all
  {
    assume 2: "EncodeRowBuffer_Reset limI limD b1 m hs1 = Inr (b2, hs2)"
    show "cap (colIDs b1) \<le> cap (colIDs b2)" "cap (row b1) \<le> cap (row b2)"
      using EncodeRowBuffer_Reset_result [OF 2] by simp_all
  }
  {
    assume 3: "EncodeRowBuffer_Resets limI limD b1 cs hs1 = Inr (b3, hs3)"
    show "cap (colIDs b1) \<le> cap (colIDs b3)" "cap (row b1) \<le> cap (row b3)"
      using EncodeRowBuffer_Resets_result [OF 3] by simp_all
  }
next
  assume 1: "CheckRowBuffer_Reset limD cb n hs = Inr (c1, hc1)"
  show "n \<le> int (cap (rowToCheck c1))" "cap (rowToCheck cb) \<le> cap (rowToCheck c1)"
    using CheckRowBuffer_Reset_result [OF 1] by simp_all
  {
    assume 2: "CheckRowBuffer_Reset limD c1 m hc1 = Inr (c2, hc2)"
    show "cap (rowToCheck c1) \<le> cap (rowToCheck c2)"
      using CheckRowBuffer_Reset_result [OF 2] by simp
  }
  {
    assume 3: "CheckRowBuffer_Resets limD c1 cs hc1 = Inr (c3, hc3)"
    show "cap (rowToCheck c1) \<le> cap (rowToCheck c3)"
      using CheckRowBuffer_Resets_result [OF 3] by simp
  }
next
  assume l: "n \<le> int limI \<and> n \<le> int limD \<and> m \<le> int limI \<and> m \<le> int limD
        \<and> (\<forall>c\<in>set cs. c \<le> int limI \<and> c \<le> int limD)"
  obtain b1 hs1 where 1: "EncodeRowBuffer_Reset limI limD b n hs = Inr (b1, hs1)"
    using EncodeRowBuffer_Reset_returns [of n b limI limD hs] l by blast
  obtain b2 hs2 where 2: "EncodeRowBuffer_Reset limI limD b1 m hs1 = Inr (b2, hs2)"
    using EncodeRowBuffer_Reset_returns [of m b1 limI limD hs1] l by blast
  obtain b3 hs3 where 3: "EncodeRowBuffer_Resets limI limD b1 cs hs1 = Inr (b3, hs3)"
    using EncodeRowBuffer_Resets_returns [of cs limI limD b1 hs1] l by blast
  show "\<exists>b1 hs1 b2 hs2 b3 hs3.
            EncodeRowBuffer_Reset limI limD b n hs = Inr (b1, hs1)
          \<and> EncodeRowBuffer_Reset limI limD b1 m hs1 = Inr (b2, hs2)
          \<and> EncodeRowBuffer_Resets limI limD b1 cs hs1 = Inr (b3, hs3)"
    using 1 2 3 by blast
  obtain c1 hc1 where 4: "CheckRowBuffer_Reset limD cb n hs = Inr (c1, hc1)"
    using CheckRowBuffer_Reset_returns [of n cb limD hs] l by blast
  obtain c2 hc2 where 5: "CheckRowBuffer_Reset limD c1 m hc1 = Inr (c2, hc2)"
    using CheckRowBuffer_Reset_returns [of m c1 limD hc1] l by blast
  obtain c3 hc3 where 6: "CheckRowBuffer_Resets limD c1 cs hc1 = Inr (c3, hc3)"
    using CheckRowBuffer_Resets_returns [of cs limD c1 hc1] l by blast
  show "\<exists>c1 hc1 c2 hc2 c3 hc3.
            CheckRowBuffer_Reset limD cb n hs = Inr (c1, hc1)
          \<and> CheckRowBuffer_Reset limD c1 m hc1 = Inr (c2, hc2)
          \<and> CheckRowBuffer_Resets limD c1 cs hc1 = Inr (c3, hc3)"
    using 4 5 6 by blast
qed

text \<open>
  Witness for C3: from the empty buffers, \<^verbatim>\<open>Reset(5)\<close>, then \<^verbatim>\<open>Reset(2)\<close>, and
  \<^verbatim>\<open>Reset(5)\<close> followed by the resets to 1, 8 and 3: all return, and no capacity goes
  below the 5 cells that the first call established; and a slice of capacity 3 that is
  reset with capacity 2 keeps its 3 cells.
\<close>

theorem Reset_capacity_never_shrinks_witness:
  "(\<exists>b1 hs1 b2 hs2 b3 hs3.
       EncodeRowBuffer_Reset sampleLimI sampleLimD
         \<lparr>colIDs = nil, row = nil, writeStmtBufs = Some 0\<rparr> 5
         \<lparr>int64s = [], datums = [] :: nat list list, bytes = []\<rparr> = Inr (b1, hs1)
     \<and> EncodeRowBuffer_Reset sampleLimI sampleLimD b1 2 hs1 = Inr (b2, hs2)
     \<and> EncodeRowBuffer_Resets sampleLimI sampleLimD b1 [1, 8, 3] hs1 = Inr (b3, hs3)
     \<and> 5 \<le> cap (colIDs b1) \<and> 5 \<le> cap (row b1)
     \<and> cap (colIDs b1) \<le> cap (colIDs b2) \<and> cap (row b1) \<le> cap (row b2)
     \<and> cap (colIDs b1) \<le> cap (colIDs b3) \<and> cap (row b1) \<le> cap (row b3))
   \<and> (\<exists>c1 hc1 c2 hc2 c3 hc3.
       CheckRowBuffer_Reset sampleLimD \<lparr>rowToCheck = nil\<rparr> 5
         \<lparr>int64s = [], datums = [] :: nat list list, bytes = []\<rparr> = Inr (c1, hc1)
     \<and> CheckRowBuffer_Reset sampleLimD c1 2 hc1 = Inr (c2, hc2)
     \<and> CheckRowBuffer_Resets sampleLimD c1 [1, 8, 3] hc1 = Inr (c3, hc3)
     \<and> 5 \<le> cap (rowToCheck c1)
     \<and> cap (rowToCheck c1) \<le> cap (rowToCheck c2)
     \<and> cap (rowToCheck c1) \<le> cap (rowToCheck c3))
   \<and> (\<exists>s' h'.
       ensureCapacityAndReset sampleLimI [[7, 8, 9 :: int64]]
         \<lparr>ptr = Some 0, len = 3, cap = 3\<rparr> 0 [2] = Inr (s', h')
     \<and> 3 \<le> cap s')"
proof -
  let ?b = "\<lparr>colIDs = nil, row = nil, writeStmtBufs = Some 0\<rparr>"
  let ?cb = "\<lparr>rowToCheck = nil\<rparr>"
  let ?hs = "\<lparr>int64s = [], datums = [] :: nat list list, bytes = []\<rparr>"
  have lim: "(8 :: int) \<le> int sampleLimI" "(8 :: int) \<le> int sampleLimD"
    by (simp_all add: sampleLimI_def sampleLimD_def)
  have l: "(5 :: int) \<le> int sampleLimI \<and> (5 :: int) \<le> int sampleLimD
      \<and> (2 :: int) \<le> int sampleLimI \<and> (2 :: int) \<le> int sampleLimD
      \<and> (\<forall>c\<in>set [1, 8, 3 :: int]. c \<le> int sampleLimI \<and> c \<le> int sampleLimD)"
    using lim by simp
  note ret = Reset_capacity_never_shrinks [where limI = sampleLimI and limD = sampleLimD and b = ?b and cb = ?cb
      and hs = ?hs and n = 5 and m = 2 and cs = "[1, 8, 3]",
      THEN conjunct2, THEN conjunct2, THEN conjunct1, rule_format, OF l]
  obtain b1 hs1 b2 hs2 b3 hs3 where e:
    "EncodeRowBuffer_Reset sampleLimI sampleLimD ?b 5 ?hs = Inr (b1, hs1)"
    "EncodeRowBuffer_Reset sampleLimI sampleLimD b1 2 hs1 = Inr (b2, hs2)"
    "EncodeRowBuffer_Resets sampleLimI sampleLimD b1 [1, 8, 3] hs1 = Inr (b3, hs3)"
    using ret by blast
  obtain c1 hc1 c2 hc2 c3 hc3 where c:
    "CheckRowBuffer_Reset sampleLimD ?cb 5 ?hs = Inr (c1, hc1)"
    "CheckRowBuffer_Reset sampleLimD c1 2 hc1 = Inr (c2, hc2)"
    "CheckRowBuffer_Resets sampleLimD c1 [1, 8, 3] hc1 = Inr (c3, hc3)"
    using ret by blast
  note inst = Reset_capacity_never_shrinks [where limI = sampleLimI and limD = sampleLimD and b = ?b and cb = ?cb
      and hs = ?hs and n = 5 and m = 2 and cs = "[1, 8, 3]"
      and ?b1.0 = b1 and ?hs1.0 = hs1 and ?b2.0 = b2 and ?hs2.0 = hs2
      and ?b3.0 = b3 and ?hs3.0 = hs3 and ?c1.0 = c1 and ?hc1.0 = hc1
      and ?c2.0 = c2 and ?hc2.0 = hc2 and ?c3.0 = c3 and ?hc3.0 = hc3]
  have 1: "5 \<le> cap (colIDs b1) \<and> 5 \<le> cap (row b1)
     \<and> cap (colIDs b1) \<le> cap (colIDs b2) \<and> cap (row b1) \<le> cap (row b2)
     \<and> cap (colIDs b1) \<le> cap (colIDs b3) \<and> cap (row b1) \<le> cap (row b3)"
    using inst [THEN conjunct1] e by simp
  have 2: "5 \<le> cap (rowToCheck c1)
     \<and> cap (rowToCheck c1) \<le> cap (rowToCheck c2)
     \<and> cap (rowToCheck c1) \<le> cap (rowToCheck c3)"
    using inst [THEN conjunct2, THEN conjunct1] c by simp
  let ?s = "\<lparr>ptr = Some 0, len = 3, cap = 3\<rparr>"
  have run: "ensureCapacityAndReset sampleLimI [[7, 8, 9 :: int64]] ?s 0 [2]
      = Inr (?s\<lparr>len := 0\<rparr>, [[7, 8, 9]])"
    by (simp add: ensureCapacityAndReset_def reslice_def)
  have 3: "cap ?s \<le> cap (?s\<lparr>len := 0\<rparr>)"
    using Reset_capacity_never_shrinks [where lim = sampleLimI and h = "[[7, 8, 9 :: int64]]" and s = ?s and n = 2
        and s' = "?s\<lparr>len := 0\<rparr>" and h' = "[[7, 8, 9]]",
        THEN conjunct2, THEN conjunct2, THEN conjunct2] run
    by blast
  have 4: "\<exists>s' h'. ensureCapacityAndReset sampleLimI [[7, 8, 9 :: int64]] ?s 0 [2]
      = Inr (s', h') \<and> 3 \<le> cap s'"
    using run 3 by simp
  show ?thesis
    using e c 1 2 4 by blast
qed

text \<open>
  C4. For every \<^verbatim>\<open>EncodeRowBuffer\<close> bound to scratch buffers and holding \<open>k\<close> values
  (\<open>k\<close> is \<^verbatim>\<open>len(b.row)\<close>, the number of values that a valid \<^verbatim>\<open>row\<close> shows), with \<open>2 * k\<close>
  within the capacity of \<^verbatim>\<open>stmtBufs.AddRowValues\<close> or within the allocation limit (above
  both, the call panics before the encoder is reached), every call of
  \<^verbatim>\<open>WriteMemBufferEncoded\<close>, whatever the scratch buffers held before, sets the length of
  \<^verbatim>\<open>stmtBufs.AddRowValues\<close> to exactly \<open>2 * k\<close>, without fault, and then calls the encoder
  with that slice. (\<open>2 * k\<close> cannot overflow a Go \<^verbatim>\<open>int\<close>: a slice of \<open>k\<close> datums is in
  memory.)
\<close>

theorem WriteMemBufferEncoded_resizes_AddRowValues:
  assumes "writeStmtBufs b = Some p"
    and "2 * len (row b) \<le> cap (AddRowValues (bufs w p)) \<or> 2 * len (row b) \<le> limD"
  shows "\<exists>w1. adjustAddRowValues limD b w = Inr (p, w1)
     \<and> len (AddRowValues (bufs w1 p)) = 2 * len (row b)
     \<and> (valid (datums (heap w)) (row b) \<longrightarrow>
          len (AddRowValues (bufs w1 p)) = 2 * length (view (datums (heap w)) (row b)))
     \<and> WriteMemBufferEncoded limD EncodeRow b cfg loc ec memBuffer key handle flags w =
         storeEncoded ec memBuffer key flags p w1
           (EncodeRow loc (row b) (colIDs b) (RowValBuf (bufs w1 p))
              (AddRowValues (bufs w1 p))
              (if IsRowLevelChecksumEnabled cfg then RawChecksum handle else NilChecksum)
              (RowEncoder cfg) (heap w1))"
proof -
  obtain w1 where 1: "adjustAddRowValues limD b w = Inr (p, w1)"
    "len (AddRowValues (bufs w1 p)) = 2 * len (row b)"
    using adjustAddRowValues_props [OF assms] by blast
  have 2: "WriteMemBufferEncoded limD EncodeRow b cfg loc ec memBuffer key handle flags w =
         storeEncoded ec memBuffer key flags p w1
           (EncodeRow loc (row b) (colIDs b) (RowValBuf (bufs w1 p))
              (AddRowValues (bufs w1 p))
              (if IsRowLevelChecksumEnabled cfg then RawChecksum handle else NilChecksum)
              (RowEncoder cfg) (heap w1))"
    by (rule WriteMemBufferEncoded_run [OF 1(1)])
  have 3: "valid (datums (heap w)) (row b) \<longrightarrow>
          len (AddRowValues (bufs w1 p)) = 2 * length (view (datums (heap w)) (row b))"
    using 1(2) by (simp add: view_length)
  show ?thesis
    using 1 2 3 by blast
qed

text \<open>
  Witness for C4: the sample buffer holds two values and the secondary area had length 0;
  the call sets it to 4.
\<close>

theorem WriteMemBufferEncoded_resizes_AddRowValues_witness:
  "\<exists>w1. adjustAddRowValues sampleLimD sampleBuffer sampleWorld = Inr (0, w1)
     \<and> len (AddRowValues (bufs w1 0)) = 4
     \<and> len (AddRowValues (bufs sampleWorld 0)) = 0"
proof -
  have l: "2 * len (row sampleBuffer) \<le> cap (AddRowValues (bufs sampleWorld 0))
      \<or> 2 * len (row sampleBuffer) \<le> sampleLimD"
    by (simp add: sampleBuffer_def sampleLimD_def)
  have p: "writeStmtBufs sampleBuffer = Some 0"
    by (simp add: sampleBuffer_def)
  show ?thesis
    using WriteMemBufferEncoded_resizes_AddRowValues [OF p l, where EncodeRow = sampleEncodeRow and cfg = sampleConfig and loc = "()"
        and ec = propagate and memBuffer = recordingMemBuffer and key = 7 and handle = 0
        and flags = "[]"]
    by (auto simp: sampleBuffer_def sampleWorld_def nil_def)
qed

text \<open>
  C5. For every call of \<^verbatim>\<open>WriteMemBufferEncoded\<close> on a buffer bound to scratch buffers
  that reaches the encoder (\<open>2 * len(b.row)\<close> within the capacity of \<^verbatim>\<open>AddRowValues\<close> or
  within the allocation limit): the encoder is called, and its error \<open>err\<close> is what
  \<^verbatim>\<open>ec.HandleError\<close> receives. Whenever \<^verbatim>\<open>HandleError\<close> returns a non-nil error, that error
  is the result, the store is returned as it was (no \<^verbatim>\<open>Set\<close>, no \<^verbatim>\<open>SetWithFlags\<close>) and the
  field \<^verbatim>\<open>RowValBuf\<close> of the scratch buffers is what it was before the call. Whenever it
  returns nil, also for a non-nil \<open>err\<close>, the call goes on to the store write and returns
  its outcome.
\<close>

theorem WriteMemBufferEncoded_error_outcome:
  assumes "writeStmtBufs b = Some p"
    and "2 * len (row b) \<le> cap (AddRowValues (bufs w p)) \<or> 2 * len (row b) \<le> limD"
  shows "\<exists>w1 encoded err hs.
       adjustAddRowValues limD b w = Inr (p, w1)
     \<and> EncodeRow loc (row b) (colIDs b) (RowValBuf (bufs w1 p)) (AddRowValues (bufs w1 p))
          (if IsRowLevelChecksumEnabled cfg then RawChecksum handle else NilChecksum)
          (RowEncoder cfg) (heap w1) = ((encoded, err), hs)
     \<and> (\<forall>e. HandleError ec err = Some e \<longrightarrow>
          (\<exists>w'. WriteMemBufferEncoded limD EncodeRow b cfg loc ec memBuffer key handle flags w
                  = Inr (Some e, w', memBuffer)
             \<and> RowValBuf (bufs w' p) = RowValBuf (bufs w p)))
     \<and> (HandleError ec err = None \<longrightarrow>
          (\<exists>e m w'. WriteMemBufferEncoded limD EncodeRow b cfg loc ec memBuffer key handle flags w
                  = Inr (e, w', memBuffer\<lparr>store := m\<rparr>)
             \<and> (e, m) = (if length flags = 0
                         then Set memBuffer (store memBuffer) key (view (bytes hs) encoded)
                         else SetWithFlags memBuffer (store memBuffer) key
                                (view (bytes hs) encoded) flags)))"
proof -
  obtain w1 where 1: "adjustAddRowValues limD b w = Inr (p, w1)"
    "RowValBuf (bufs w1 p) = RowValBuf (bufs w p)"
    using adjustAddRowValues_props [OF assms] by blast
  obtain encoded err hs where 2:
    "EncodeRow loc (row b) (colIDs b) (RowValBuf (bufs w1 p)) (AddRowValues (bufs w1 p))
          (if IsRowLevelChecksumEnabled cfg then RawChecksum handle else NilChecksum)
          (RowEncoder cfg) (heap w1) = ((encoded, err), hs)"
    by (metis surj_pair)
  show ?thesis
    using 1 2
      WriteMemBufferEncoded_run [OF 1(1), where EncodeRow = EncodeRow and loc = loc
        and cfg = cfg and handle = handle and ec = ec and memBuffer = memBuffer and key = key
        and flags = flags]
    by (auto simp: storeEncoded_def Let_def split: prod.splits)
qed

text \<open>
  Witness for C5: an encoder that fails with error 5. An error context that propagates
  gives error 5 and leaves the store and \<^verbatim>\<open>RowValBuf\<close> alone; one that suppresses lets the
  write happen.
\<close>

theorem WriteMemBufferEncoded_error_outcome_witness:
  "(\<exists>w'. WriteMemBufferEncoded sampleLimD failingEncodeRow sampleBuffer sampleConfig () propagate
            recordingMemBuffer 7 0 [] sampleWorld
          = Inr (Some 5, w', recordingMemBuffer)
        \<and> RowValBuf (bufs w' 0) = RowValBuf (bufs sampleWorld 0))
   \<and> (\<exists>w'. WriteMemBufferEncoded sampleLimD failingEncodeRow sampleBuffer sampleConfig () suppress
            recordingMemBuffer 7 0 [] sampleWorld
          = Inr (None, w', recordingMemBuffer\<lparr>store := [(7, [], [])]\<rparr>))"
proof -
  have l: "2 * len (row sampleBuffer) \<le> cap (AddRowValues (bufs sampleWorld 0))
      \<or> 2 * len (row sampleBuffer) \<le> sampleLimD"
    by (simp add: sampleBuffer_def sampleLimD_def)
  have p: "writeStmtBufs sampleBuffer = Some 0"
    by (simp add: sampleBuffer_def)
  have lim: "(4 :: int) \<le> int sampleLimD"
    by (simp add: sampleLimD_def)
  show ?thesis
    using WriteMemBufferEncoded_error_outcome [OF p l, where EncodeRow = failingEncodeRow and cfg = sampleConfig and loc = "()"
        and ec = propagate and memBuffer = recordingMemBuffer and key = 7 and handle = 0
        and flags = "[]"]
      WriteMemBufferEncoded_error_outcome [OF p l, where EncodeRow = failingEncodeRow and cfg = sampleConfig and loc = "()"
        and ec = suppress and memBuffer = recordingMemBuffer and key = 7 and handle = 0
        and flags = "[]"] lim
    by (simp add: sampleBuffer_def sampleWorld_def failingEncodeRow_def recordingMemBuffer_def
          propagate_def suppress_def sampleConfig_def
          adjustAddRowValues_def ensureCapacityAndReset_def make_slice_def reslice_def
          storeEncoded_def WriteMemBufferEncoded_def view_def nil_def)
qed

text \<open>
  C6. For every call of \<^verbatim>\<open>WriteMemBufferEncoded\<close> on a buffer bound to scratch buffers
  that reaches the encoder (\<open>2 * len(b.row)\<close> within the capacity of \<^verbatim>\<open>AddRowValues\<close> or
  within the allocation limit) and in which the encode succeeds (the error context
  returns nil): the encoder's slice is stored in \<^verbatim>\<open>stmtBufs.RowValBuf\<close>, its bytes are
  written under the key by \<^verbatim>\<open>Set\<close> when no flags are given and by \<^verbatim>\<open>SetWithFlags\<close> with
  the flags otherwise, and the error and the state that the store returns are the
  result, unchanged.
\<close>

theorem WriteMemBufferEncoded_writes_encoded:
  assumes "writeStmtBufs b = Some p"
    and "2 * len (row b) \<le> cap (AddRowValues (bufs w p)) \<or> 2 * len (row b) \<le> limD"
  shows "\<exists>w1 encoded err hs.
       adjustAddRowValues limD b w = Inr (p, w1)
     \<and> EncodeRow loc (row b) (colIDs b) (RowValBuf (bufs w1 p)) (AddRowValues (bufs w1 p))
          (if IsRowLevelChecksumEnabled cfg then RawChecksum handle else NilChecksum)
          (RowEncoder cfg) (heap w1) = ((encoded, err), hs)
     \<and> (HandleError ec err = None \<longrightarrow>
          (\<exists>e m w'. WriteMemBufferEncoded limD EncodeRow b cfg loc ec memBuffer key handle flags w
                  = Inr (e, w', memBuffer\<lparr>store := m\<rparr>)
             \<and> RowValBuf (bufs w' p) = encoded \<and> heap w' = hs
             \<and> (flags = [] \<longrightarrow>
                  Set memBuffer (store memBuffer) key (view (bytes hs) encoded) = (e, m))
             \<and> (flags \<noteq> [] \<longrightarrow>
                  SetWithFlags memBuffer (store memBuffer) key (view (bytes hs) encoded) flags
                    = (e, m))))"
proof -
  obtain w1 where 1: "adjustAddRowValues limD b w = Inr (p, w1)"
    using adjustAddRowValues_props [OF assms] by blast
  obtain encoded err hs where 2:
    "EncodeRow loc (row b) (colIDs b) (RowValBuf (bufs w1 p)) (AddRowValues (bufs w1 p))
          (if IsRowLevelChecksumEnabled cfg then RawChecksum handle else NilChecksum)
          (RowEncoder cfg) (heap w1) = ((encoded, err), hs)"
    by (metis surj_pair)
  show ?thesis
    using 1 2
      WriteMemBufferEncoded_run [OF 1(1), where EncodeRow = EncodeRow and loc = loc
        and cfg = cfg and handle = handle and ec = ec and memBuffer = memBuffer and key = key
        and flags = flags]
    by (auto simp: storeEncoded_def Let_def split: prod.splits)
qed

text \<open>
  Witness for C6, the two scenarios of the spec: the sample buffer written with no flags
  and with the flag 9; the store records \<open>Set(7, [10, 20])\<close> and
  \<open>SetWithFlags(7, [10, 20], 9)\<close>.
\<close>

theorem WriteMemBufferEncoded_writes_encoded_witness:
  "(\<exists>w'. WriteMemBufferEncoded sampleLimD sampleEncodeRow sampleBuffer sampleConfig () propagate
            recordingMemBuffer 7 0 [] sampleWorld
          = Inr (None, w', recordingMemBuffer\<lparr>store := [(7, [10, 20], [])]\<rparr>)
        \<and> RowValBuf (bufs w' 0) = \<lparr>ptr = Some 0, len = 2, cap = 2\<rparr>
        \<and> view (bytes (heap w')) (RowValBuf (bufs w' 0)) = [10, 20])
   \<and> (\<exists>w'. WriteMemBufferEncoded sampleLimD sampleEncodeRow sampleBuffer sampleConfig () propagate
            recordingMemBuffer 7 0 [9] sampleWorld
          = Inr (None, w', recordingMemBuffer\<lparr>store := [(7, [10, 20], [9])]\<rparr>))"
proof -
  have l: "2 * len (row sampleBuffer) \<le> cap (AddRowValues (bufs sampleWorld 0))
      \<or> 2 * len (row sampleBuffer) \<le> sampleLimD"
    by (simp add: sampleBuffer_def sampleLimD_def)
  have p: "writeStmtBufs sampleBuffer = Some 0"
    by (simp add: sampleBuffer_def)
  have lim: "(4 :: int) \<le> int sampleLimD"
    by (simp add: sampleLimD_def)
  show ?thesis
    using WriteMemBufferEncoded_writes_encoded [OF p l, where EncodeRow = sampleEncodeRow and cfg = sampleConfig and loc = "()"
        and ec = propagate and memBuffer = recordingMemBuffer and key = 7 and handle = 0
        and flags = "[]"]
      WriteMemBufferEncoded_writes_encoded [OF p l, where EncodeRow = sampleEncodeRow and cfg = sampleConfig and loc = "()"
        and ec = propagate and memBuffer = recordingMemBuffer and key = 7 and handle = 0
        and flags = "[9]"] lim
    by (simp add: sampleBuffer_def sampleWorld_def sampleEncodeRow_def recordingMemBuffer_def
          propagate_def sampleConfig_def
          adjustAddRowValues_def ensureCapacityAndReset_def make_slice_def reslice_def
          storeEncoded_def WriteMemBufferEncoded_def view_def nil_def)
qed

text \<open>
  C7. For every \<^verbatim>\<open>CheckRowBuffer\<close> (its slice valid, as every Go slice is) and every two
  cycles in a row, \<^verbatim>\<open>Reset(c0)\<close> with the values \<open>vs0\<close> added and then \<^verbatim>\<open>Reset(c)\<close> with
  the values \<open>vs\<close> added, in every run in which the resets return: after the first cycle
  the buffer shows exactly \<open>vs0\<close> and \<^verbatim>\<open>GetRowToCheck\<close> is the row of \<open>vs0\<close>; after the
  second cycle the buffer shows exactly \<open>vs\<close>, in insertion order, and \<^verbatim>\<open>GetRowToCheck\<close>
  is the row of \<open>vs\<close>: nothing added before the last \<^verbatim>\<open>Reset\<close> is in the view. The same
  holds for an \<^verbatim>\<open>EncodeRowBuffer\<close>: after two cycles its slices, which are what both
  encode methods hand to the encoder, show exactly the pairs of the second cycle. All
  calls of the two cycles return when the capacities asked for are within the allocation
  limits.
\<close>

theorem GetRowToCheck_after_cycle:
  fixes hs :: "'d::zero heaps"
  assumes "valid (datums hs) (rowToCheck b)"
    and "valid (int64s hs) (colIDs e)" and "valid (datums hs) (row e)"
  shows "(CheckRowBuffer_Reset limD b c0 hs = Inr (b1, hs1)
        \<and> CheckRowBuffer_AddColVals slackD b1 vs0 hs1 = (b2, hs2) \<longrightarrow>
        view (datums hs2) (rowToCheck b2) = vs0
      \<and> GetRowToCheck toRow b2 hs2 = toRow vs0
      \<and> (CheckRowBuffer_Reset limD b2 c hs2 = Inr (b3, hs3)
           \<and> CheckRowBuffer_AddColVals slackD b3 vs hs3 = (b4, hs4) \<longrightarrow>
           view (datums hs4) (rowToCheck b4) = vs
         \<and> GetRowToCheck toRow b4 hs4 = toRow vs))
   \<and> (EncodeRowBuffer_Reset limI limD e c0 hs = Inr (e1, he1)
        \<and> EncodeRowBuffer_AddColVals slackI slackD e1 ps0 he1 = (e2, he2)
        \<and> EncodeRowBuffer_Reset limI limD e2 c he2 = Inr (e3, he3)
        \<and> EncodeRowBuffer_AddColVals slackI slackD e3 ps he3 = (e4, he4) \<longrightarrow>
        view (int64s he4) (colIDs e4) = map fst ps
      \<and> view (datums he4) (row e4) = map snd ps)
   \<and> (c0 \<le> int limD \<and> c \<le> int limD \<longrightarrow>
        (\<exists>b1 hs1 b2 hs2 b3 hs3 b4 hs4.
            CheckRowBuffer_Reset limD b c0 hs = Inr (b1, hs1)
          \<and> CheckRowBuffer_AddColVals slackD b1 vs0 hs1 = (b2, hs2)
          \<and> CheckRowBuffer_Reset limD b2 c hs2 = Inr (b3, hs3)
          \<and> CheckRowBuffer_AddColVals slackD b3 vs hs3 = (b4, hs4)))
   \<and> (c0 \<le> int limI \<and> c0 \<le> int limD \<and> c \<le> int limI \<and> c \<le> int limD \<longrightarrow>
        (\<exists>e1 he1 e2 he2 e3 he3 e4 he4.
            EncodeRowBuffer_Reset limI limD e c0 hs = Inr (e1, he1)
          \<and> EncodeRowBuffer_AddColVals slackI slackD e1 ps0 he1 = (e2, he2)
          \<and> EncodeRowBuffer_Reset limI limD e2 c he2 = Inr (e3, he3)
          \<and> EncodeRowBuffer_AddColVals slackI slackD e3 ps he3 = (e4, he4)))"
proof (intro conjI impI)
  assume r: "CheckRowBuffer_Reset limD b c0 hs = Inr (b1, hs1)
        \<and> CheckRowBuffer_AddColVals slackD b1 vs0 hs1 = (b2, hs2)"
  note 1 = CheckRowBuffer_cycle [OF assms(1) conjunct1 [OF r] conjunct2 [OF r]]
  show "view (datums hs2) (rowToCheck b2) = vs0"
    using 1 by simp
  then show "GetRowToCheck toRow b2 hs2 = toRow vs0"
    by (simp add: GetRowToCheck_def)
  assume r2: "CheckRowBuffer_Reset limD b2 c hs2 = Inr (b3, hs3)
           \<and> CheckRowBuffer_AddColVals slackD b3 vs hs3 = (b4, hs4)"
  have v: "valid (datums hs2) (rowToCheck b2)"
    using 1 by simp
  note 2 = CheckRowBuffer_cycle [OF v conjunct1 [OF r2] conjunct2 [OF r2]]
  show "view (datums hs4) (rowToCheck b4) = vs"
    using 2 by simp
  then show "GetRowToCheck toRow b4 hs4 = toRow vs"
    by (simp add: GetRowToCheck_def)
next
  assume r: "EncodeRowBuffer_Reset limI limD e c0 hs = Inr (e1, he1)
        \<and> EncodeRowBuffer_AddColVals slackI slackD e1 ps0 he1 = (e2, he2)
        \<and> EncodeRowBuffer_Reset limI limD e2 c he2 = Inr (e3, he3)
        \<and> EncodeRowBuffer_AddColVals slackI slackD e3 ps he3 = (e4, he4)"
  have r1: "EncodeRowBuffer_Reset limI limD e c0 hs = Inr (e1, he1)"
    and r2: "EncodeRowBuffer_AddColVals slackI slackD e1 ps0 he1 = (e2, he2)"
    and r3: "EncodeRowBuffer_Reset limI limD e2 c he2 = Inr (e3, he3)"
    and r4: "EncodeRowBuffer_AddColVals slackI slackD e3 ps he3 = (e4, he4)"
    using r by simp_all
  note 1 = EncodeRowBuffer_cycle [OF assms(2) assms(3) r1 r2]
  have v: "valid (int64s he2) (colIDs e2)" "valid (datums he2) (row e2)"
    using 1 by simp_all
  note 2 = EncodeRowBuffer_cycle [OF v r3 r4]
  show "view (int64s he4) (colIDs e4) = map fst ps"
    and "view (datums he4) (row e4) = map snd ps"
    using 2 by simp_all
next
  assume l: "c0 \<le> int limD \<and> c \<le> int limD"
  obtain b1 hs1 where 1: "CheckRowBuffer_Reset limD b c0 hs = Inr (b1, hs1)"
    using CheckRowBuffer_Reset_returns [of c0 b limD hs] l by blast
  obtain b2 hs2 where 2: "CheckRowBuffer_AddColVals slackD b1 vs0 hs1 = (b2, hs2)"
    by (cases "CheckRowBuffer_AddColVals slackD b1 vs0 hs1")
  obtain b3 hs3 where 3: "CheckRowBuffer_Reset limD b2 c hs2 = Inr (b3, hs3)"
    using CheckRowBuffer_Reset_returns [of c b2 limD hs2] l by blast
  obtain b4 hs4 where 4: "CheckRowBuffer_AddColVals slackD b3 vs hs3 = (b4, hs4)"
    by (cases "CheckRowBuffer_AddColVals slackD b3 vs hs3")
  show "\<exists>b1 hs1 b2 hs2 b3 hs3 b4 hs4.
            CheckRowBuffer_Reset limD b c0 hs = Inr (b1, hs1)
          \<and> CheckRowBuffer_AddColVals slackD b1 vs0 hs1 = (b2, hs2)
          \<and> CheckRowBuffer_Reset limD b2 c hs2 = Inr (b3, hs3)
          \<and> CheckRowBuffer_AddColVals slackD b3 vs hs3 = (b4, hs4)"
    using 1 2 3 4 by blast
next
  assume l: "c0 \<le> int limI \<and> c0 \<le> int limD \<and> c \<le> int limI \<and> c \<le> int limD"
  obtain e1 he1 where 1: "EncodeRowBuffer_Reset limI limD e c0 hs = Inr (e1, he1)"
    using EncodeRowBuffer_Reset_returns [of c0 e limI limD hs] l by blast
  obtain e2 he2 where 2: "EncodeRowBuffer_AddColVals slackI slackD e1 ps0 he1 = (e2, he2)"
    by (cases "EncodeRowBuffer_AddColVals slackI slackD e1 ps0 he1")
  obtain e3 he3 where 3: "EncodeRowBuffer_Reset limI limD e2 c he2 = Inr (e3, he3)"
    using EncodeRowBuffer_Reset_returns [of c e2 limI limD he2] l by blast
  obtain e4 he4 where 4: "EncodeRowBuffer_AddColVals slackI slackD e3 ps he3 = (e4, he4)"
    by (cases "EncodeRowBuffer_AddColVals slackI slackD e3 ps he3")
  show "\<exists>e1 he1 e2 he2 e3 he3 e4 he4.
            EncodeRowBuffer_Reset limI limD e c0 hs = Inr (e1, he1)
          \<and> EncodeRowBuffer_AddColVals slackI slackD e1 ps0 he1 = (e2, he2)
          \<and> EncodeRowBuffer_Reset limI limD e2 c he2 = Inr (e3, he3)
          \<and> EncodeRowBuffer_AddColVals slackI slackD e3 ps he3 = (e4, he4)"
    using 1 2 3 4 by blast
qed

text \<open>
  Witness for C7: from the empty buffers, a cycle that adds 5, 6, 7 (growing past the
  capacity 2) and a cycle that adds 8, 9, with the row taken to be the list of its values;
  for the encode buffer a cycle with the columns 1 and 2 and a cycle with the column 3.
\<close>

theorem GetRowToCheck_after_cycle_witness:
  "(\<exists>b1 hs1 b2 hs2 b3 hs3 b4 hs4.
       CheckRowBuffer_Reset sampleLimD \<lparr>rowToCheck = nil\<rparr> 2
         \<lparr>int64s = [], datums = [] :: nat list list, bytes = []\<rparr> = Inr (b1, hs1)
     \<and> CheckRowBuffer_AddColVals (\<lambda>_. 0) b1 [5, 6, 7] hs1 = (b2, hs2)
     \<and> view (datums hs2) (rowToCheck b2) = [5, 6, 7]
     \<and> GetRowToCheck (\<lambda>vs. vs) b2 hs2 = [5, 6, 7]
     \<and> CheckRowBuffer_Reset sampleLimD b2 2 hs2 = Inr (b3, hs3)
     \<and> CheckRowBuffer_AddColVals (\<lambda>_. 0) b3 [8, 9] hs3 = (b4, hs4)
     \<and> view (datums hs4) (rowToCheck b4) = [8, 9]
     \<and> GetRowToCheck (\<lambda>vs. vs) b4 hs4 = [8, 9])
   \<and> (\<exists>e1 hs1 e2 hs2 e3 hs3 e4 hs4.
       EncodeRowBuffer_Reset sampleLimI sampleLimD
         \<lparr>colIDs = nil, row = nil, writeStmtBufs = Some 0\<rparr> 2
         \<lparr>int64s = [], datums = [] :: nat list list, bytes = []\<rparr> = Inr (e1, hs1)
     \<and> EncodeRowBuffer_AddColVals (\<lambda>_. 0) (\<lambda>_. 0) e1 [(1, 10), (2, 20)] hs1 = (e2, hs2)
     \<and> EncodeRowBuffer_Reset sampleLimI sampleLimD e2 2 hs2 = Inr (e3, hs3)
     \<and> EncodeRowBuffer_AddColVals (\<lambda>_. 0) (\<lambda>_. 0) e3 [(3, 30)] hs3 = (e4, hs4)
     \<and> view (int64s hs4) (colIDs e4) = [3]
     \<and> view (datums hs4) (row e4) = [30])"
proof -
  let ?b = "\<lparr>rowToCheck = nil\<rparr>"
  let ?e = "\<lparr>colIDs = nil, row = nil, writeStmtBufs = Some 0\<rparr>"
  let ?hs = "\<lparr>int64s = [], datums = [] :: nat list list, bytes = []\<rparr>"
  have lim: "(2 :: int) \<le> int sampleLimI" "(2 :: int) \<le> int sampleLimD"
    by (simp_all add: sampleLimI_def sampleLimD_def)
  have v: "valid (datums ?hs) (rowToCheck ?b)" "valid (int64s ?hs) (colIDs ?e)"
    "valid (datums ?hs) (row ?e)"
    by (simp_all add: valid_def nil_def)
  note ret = GetRowToCheck_after_cycle [OF v, where limI = sampleLimI and limD = sampleLimD
      and ?c0.0 = 2 and c = 2 and slackI = "\<lambda>_. 0" and slackD = "\<lambda>_. 0"
      and ?vs0.0 = "[5, 6, 7]" and vs = "[8, 9]"
      and ?ps0.0 = "[(1, 10), (2, 20)]" and ps = "[(3, 30)]",
      THEN conjunct2, THEN conjunct2]
  obtain b1 hs1 b2 hs2 b3 hs3 b4 hs4 where c:
    "CheckRowBuffer_Reset sampleLimD ?b 2 ?hs = Inr (b1, hs1)"
    "CheckRowBuffer_AddColVals (\<lambda>_. 0) b1 [5, 6, 7] hs1 = (b2, hs2)"
    "CheckRowBuffer_Reset sampleLimD b2 2 hs2 = Inr (b3, hs3)"
    "CheckRowBuffer_AddColVals (\<lambda>_. 0) b3 [8, 9] hs3 = (b4, hs4)"
    using ret [THEN conjunct1] lim by blast
  obtain e1 he1 e2 he2 e3 he3 e4 he4 where e:
    "EncodeRowBuffer_Reset sampleLimI sampleLimD ?e 2 ?hs = Inr (e1, he1)"
    "EncodeRowBuffer_AddColVals (\<lambda>_. 0) (\<lambda>_. 0) e1 [(1, 10), (2, 20)] he1 = (e2, he2)"
    "EncodeRowBuffer_Reset sampleLimI sampleLimD e2 2 he2 = Inr (e3, he3)"
    "EncodeRowBuffer_AddColVals (\<lambda>_. 0) (\<lambda>_. 0) e3 [(3, 30)] he3 = (e4, he4)"
    using ret [THEN conjunct2] lim by blast
  note inst = GetRowToCheck_after_cycle [OF v, where limI = sampleLimI and limD = sampleLimD
      and ?c0.0 = 2 and c = 2 and slackI = "\<lambda>_. 0" and slackD = "\<lambda>_. 0"
      and ?vs0.0 = "[5, 6, 7]" and vs = "[8, 9]"
      and ?ps0.0 = "[(1, 10), (2, 20)]" and ps = "[(3, 30)]" and toRow = "\<lambda>vs. vs"
      and ?b1.0 = b1 and ?hs1.0 = hs1 and ?b2.0 = b2 and ?hs2.0 = hs2
      and ?b3.0 = b3 and ?hs3.0 = hs3 and ?b4.0 = b4 and ?hs4.0 = hs4
      and ?e1.0 = e1 and ?he1.0 = he1 and ?e2.0 = e2 and ?he2.0 = he2
      and ?e3.0 = e3 and ?he3.0 = he3 and ?e4.0 = e4 and ?he4.0 = he4]
  have 1: "view (datums hs2) (rowToCheck b2) = [5, 6, 7]
     \<and> GetRowToCheck (\<lambda>vs. vs) b2 hs2 = [5, 6, 7]
     \<and> view (datums hs4) (rowToCheck b4) = [8, 9]
     \<and> GetRowToCheck (\<lambda>vs. vs) b4 hs4 = [8, 9]"
    using inst [THEN conjunct1] c by simp
  have 2: "view (int64s he4) (colIDs e4) = [3] \<and> view (datums he4) (row e4) = [30]"
    using inst [THEN conjunct2, THEN conjunct1] e by simp
  show ?thesis
    using c e 1 2 by blast
qed

text \<open>
  C8. Over the encoder as the spec describes it, for every buffer and every result
  \<open>(v, err)\<close> of \<^verbatim>\<open>EncodeBinlogRowData\<close>: the slice \<open>v\<close> is nil or points to the array that
  the call allocated, so it shares its array with no byte slice that existed before the
  call (the scratch buffers' \<^verbatim>\<open>RowValBuf\<close> among them; \<^verbatim>\<open>colIDs\<close>, \<^verbatim>\<open>row\<close> and
  \<^verbatim>\<open>AddRowValues\<close> are in stores of other types). The call changes no array that existed
  before it (each store still begins with the arrays it had); the method assigns no field
  of the buffer or of the scratch buffers. Writing
  any cell of \<open>v\<close> afterwards changes none of those arrays either; a following \<^verbatim>\<open>Reset\<close>
  returns when the capacity is within the allocation limits, as it does without the
  write, and every following \<^verbatim>\<open>Reset\<close> and \<^verbatim>\<open>AddColVal\<close> cycle on the buffer shows
  exactly what is added.
\<close>

theorem EncodeBinlogRowData_not_aliased:
  fixes hs :: "'d::zero heaps"
  assumes "EncodeBinlogRowData (EncodeOldRow slackB oldRowFormat) b loc ec hs = ((v, err), hs')"
  shows "(ptr v = None \<or> ptr v = Some (length (bytes hs)))
     \<and> (\<forall>t. valid (bytes hs) t \<and> ptr t \<noteq> None \<longrightarrow> ptr v \<noteq> ptr t)
     \<and> take (length (int64s hs)) (int64s hs') = int64s hs
     \<and> take (length (datums hs)) (datums hs') = datums hs
     \<and> take (length (bytes hs)) (bytes hs') = bytes hs
     \<and> (\<forall>i x hB. set_index (bytes hs') v i x = Inr hB \<longrightarrow>
          take (length (bytes hs)) hB = bytes hs
          \<and> (\<forall>t. valid (bytes hs) t \<longrightarrow> view hB t = view (bytes hs) t)
          \<and> (capacity \<le> int limI \<and> capacity \<le> int limD \<longrightarrow>
               (\<exists>b1 hs1. EncodeRowBuffer_Reset limI limD b capacity (hs'\<lparr>bytes := hB\<rparr>)
                           = Inr (b1, hs1)))
          \<and> (\<forall>b1 hs1 b2 hs2.
                valid (int64s hs) (colIDs b) \<and> valid (datums hs) (row b)
              \<and> EncodeRowBuffer_Reset limI limD b capacity (hs'\<lparr>bytes := hB\<rparr>) = Inr (b1, hs1)
              \<and> EncodeRowBuffer_AddColVals slackI slackD b1 ps hs1 = (b2, hs2) \<longrightarrow>
                view (int64s hs2) (colIDs b2) = map fst ps
              \<and> view (datums hs2) (row b2) = map snd ps))"
proof -
  obtain v0 err0 where 0:
    "EncodeOldRow slackB oldRowFormat loc (row b) (colIDs b) nil nil hs = ((v0, err0), hs')"
    and v: "v = v0 \<or> v = nil"
    using assms by (auto simp: EncodeBinlogRowData_def split: prod.splits option.splits)
  note enc = EncodeOldRow_nil [OF 0]
  have 1: "ptr v = None \<or> ptr v = Some (length (bytes hs))"
    using enc v by (auto simp: nil_def)
  have 2: "ptr v \<noteq> ptr t" if "valid (bytes hs) t \<and> ptr t \<noteq> None" for t
    using 1 that by (auto simp: valid_def)
  have 3: "int64s hs' = int64s hs" "datums hs' = datums hs"
    "take (length (bytes hs)) (bytes hs') = bytes hs"
    using enc by simp_all
  have pre: "take (length (int64s hs)) (int64s hs') = int64s hs"
    "take (length (datums hs)) (datums hs') = datums hs"
    using 3 by simp_all
  have 4: "take (length (bytes hs)) hB = bytes hs
          \<and> (\<forall>t. valid (bytes hs) t \<longrightarrow> view hB t = view (bytes hs) t)
          \<and> (capacity \<le> int limI \<and> capacity \<le> int limD \<longrightarrow>
               (\<exists>b1 hs1. EncodeRowBuffer_Reset limI limD b capacity (hs'\<lparr>bytes := hB\<rparr>)
                           = Inr (b1, hs1)))
          \<and> (\<forall>b1 hs1 b2 hs2.
                valid (int64s hs) (colIDs b) \<and> valid (datums hs) (row b)
              \<and> EncodeRowBuffer_Reset limI limD b capacity (hs'\<lparr>bytes := hB\<rparr>) = Inr (b1, hs1)
              \<and> EncodeRowBuffer_AddColVals slackI slackD b1 ps hs1 = (b2, hs2) \<longrightarrow>
                view (int64s hs2) (colIDs b2) = map fst ps
              \<and> view (datums hs2) (row b2) = map snd ps)"
    if m: "set_index (bytes hs') v i x = Inr hB" for i x hB
  proof -
    have a: "take (length (bytes hs)) hB = bytes hs"
      using set_index_beyond [OF m 1 order_refl] 3(3) by simp
    have b: "view hB t = view (bytes hs) t" if "valid (bytes hs) t" for t
      using view_prefix(1) [OF that a] .
    have r: "\<exists>b1 hs1. EncodeRowBuffer_Reset limI limD b capacity (hs'\<lparr>bytes := hB\<rparr>)
                           = Inr (b1, hs1)"
      if "capacity \<le> int limI \<and> capacity \<le> int limD"
      using EncodeRowBuffer_Reset_returns [of capacity b limI limD "hs'\<lparr>bytes := hB\<rparr>"] that
      by blast
    have c: "view (int64s hs2) (colIDs b2) = map fst ps
              \<and> view (datums hs2) (row b2) = map snd ps"
      if "valid (int64s hs) (colIDs b) \<and> valid (datums hs) (row b)
              \<and> EncodeRowBuffer_Reset limI limD b capacity (hs'\<lparr>bytes := hB\<rparr>) = Inr (b1, hs1)
              \<and> EncodeRowBuffer_AddColVals slackI slackD b1 ps hs1 = (b2, hs2)"
      for b1 hs1 b2 hs2
    proof -
      have "valid (int64s (hs'\<lparr>bytes := hB\<rparr>)) (colIDs b)"
        and "valid (datums (hs'\<lparr>bytes := hB\<rparr>)) (row b)"
        using that 3 by simp_all
      from EncodeRowBuffer_cycle [OF this] that show ?thesis
        by blast
    qed
    show ?thesis
      using a b r c by blast
  qed
  show ?thesis
    using 1 2 3(3) pre 4 by blast
qed

text \<open>
  Witness for C8: the sample buffer encoded while a scratch array \<open>[3, 3]\<close> is allocated;
  the result is a new array, overwriting its first byte leaves \<open>[3, 3]\<close> alone, and the
  next cycle on the buffer shows the one pair that it adds.
\<close>

theorem EncodeBinlogRowData_not_aliased_witness:
  "EncodeBinlogRowData (EncodeOldRow (\<lambda>_. 0) sampleFormat) sampleBuffer () propagate
       \<lparr>int64s = [[1, 2, 0]], datums = [[10, 20, 0]], bytes = [[3, 3]]\<rparr>
     = ((\<lparr>ptr = Some 1, len = 2, cap = 2\<rparr>, None),
        \<lparr>int64s = [[1, 2, 0]], datums = [[10, 20, 0]], bytes = [[3, 3], [10, 20]]\<rparr>)
   \<and> ptr \<lparr>ptr = Some 1, len = 2, cap = 2\<rparr> \<noteq> ptr \<lparr>ptr = Some 0, len = 2, cap = 2\<rparr>
   \<and> set_index [[3, 3], [10, 20 :: byte]] \<lparr>ptr = Some 1, len = 2, cap = 2\<rparr> 0 99
       = Inr [[3, 3], [99, 20]]
   \<and> view [[3, 3], [99, 20 :: byte]] \<lparr>ptr = Some 0, len = 2, cap = 2\<rparr> = [3, 3]
   \<and> (\<exists>b1 hs1 b2 hs2.
         EncodeRowBuffer_Reset sampleLimI sampleLimD sampleBuffer 3
           \<lparr>int64s = [[1, 2, 0]], datums = [[10, 20, 0 :: nat]], bytes = [[3, 3], [99, 20]]\<rparr>
           = Inr (b1, hs1)
       \<and> EncodeRowBuffer_AddColVals (\<lambda>_. 0) (\<lambda>_. 0) b1 [(4, 40)] hs1 = (b2, hs2)
       \<and> view (int64s hs2) (colIDs b2) = [4]
       \<and> view (datums hs2) (row b2) = [40])"
proof -
  let ?hs = "\<lparr>int64s = [[1, 2, 0]], datums = [[10, 20, 0 :: nat]], bytes = [[3, 3]]\<rparr>"
  let ?hs' = "\<lparr>int64s = [[1, 2, 0]], datums = [[10, 20, 0 :: nat]], bytes = [[3, 3], [10, 20]]\<rparr>"
  let ?hs'' = "\<lparr>int64s = [[1, 2, 0]], datums = [[10, 20, 0 :: nat]],
               bytes = [[3, 3], [99, 20]]\<rparr>"
  let ?v = "\<lparr>ptr = Some 1, len = 2, cap = 2\<rparr>"
  let ?t = "\<lparr>ptr = Some 0, len = 2, cap = 2\<rparr>"
  have run: "EncodeBinlogRowData (EncodeOldRow (\<lambda>_. 0) sampleFormat) sampleBuffer () propagate
       ?hs = ((?v, None), ?hs')"
    by (simp add: EncodeBinlogRowData_def EncodeOldRow_def append_slice_def growslice_def
          view_def nil_def sampleBuffer_def sampleFormat_def propagate_def)
  have m: "set_index (bytes ?hs') ?v 0 99 = Inr [[3, 3], [99, 20]]"
    by (simp add: set_index_def)
  have upd: "?hs'\<lparr>bytes := [[3, 3], [99, 20]]\<rparr> = ?hs''"
    by simp
  have t: "valid (bytes ?hs) ?t \<and> ptr ?t \<noteq> None" and t': "valid (bytes ?hs) ?t"
    by (simp_all add: valid_def)
  have b: "valid (int64s ?hs) (colIDs sampleBuffer)" "valid (datums ?hs) (row sampleBuffer)"
    by (simp_all add: valid_def sampleBuffer_def)
  have lim: "(3 :: int) \<le> int sampleLimI \<and> (3 :: int) \<le> int sampleLimD"
    by (simp add: sampleLimI_def sampleLimD_def)
  note inst = EncodeBinlogRowData_not_aliased [OF run, where capacity = 3
      and limI = sampleLimI and limD = sampleLimD
      and slackI = "\<lambda>_. 0" and slackD = "\<lambda>_. 0" and ps = "[(4, 40)]"]
  note wr = inst [THEN conjunct2, THEN conjunct2, THEN conjunct2, THEN conjunct2,
      THEN conjunct2, rule_format, OF m]
  have 1: "ptr ?v \<noteq> ptr ?t"
    using inst t by blast
  have 2: "view [[3, 3], [99, 20]] ?t = view (bytes ?hs) ?t"
    using wr t' by blast
  obtain b1 hs1 where r: "EncodeRowBuffer_Reset sampleLimI sampleLimD sampleBuffer 3 ?hs''
      = Inr (b1, hs1)"
    using wr lim upd by auto
  obtain b2 hs2 where a: "EncodeRowBuffer_AddColVals (\<lambda>_. 0) (\<lambda>_. 0) b1 [(4, 40)] hs1
      = (b2, hs2)"
    by (cases "EncodeRowBuffer_AddColVals (\<lambda>_. 0) (\<lambda>_. 0) b1 [(4, 40 :: nat)] hs1")
  have 3: "view (int64s hs2) (colIDs b2) = map fst [(4 :: int64, 40 :: nat)]
       \<and> view (datums hs2) (row b2) = map snd [(4 :: int64, 40 :: nat)]"
    using wr [THEN conjunct2, THEN conjunct2, THEN conjunct2, rule_format,
        where ?b1.0 = b1 and ?hs1.0 = hs1 and ?b2.0 = b2 and ?hs2.0 = hs2] b r a upd
    by simp
  have 4: "\<exists>b1 hs1 b2 hs2.
         EncodeRowBuffer_Reset sampleLimI sampleLimD sampleBuffer 3 ?hs'' = Inr (b1, hs1)
       \<and> EncodeRowBuffer_AddColVals (\<lambda>_. 0) (\<lambda>_. 0) b1 [(4, 40)] hs1 = (b2, hs2)
       \<and> view (int64s hs2) (colIDs b2) = [4]
       \<and> view (datums hs2) (row b2) = [40]"
    using r a 3 by auto
  show ?thesis
    using run m 1 2 4 by (simp add: view_def)
qed

text \<open>
  C9. With the assertion as the spec describes it, \<^verbatim>\<open>NewMutateBuffers(nil)\<close> is an assertion
  failure. \<^verbatim>\<open>NewMutateBuffers\<close> of a non-nil reference returns a pool that holds exactly that
  reference (\<^verbatim>\<open>GetWriteStmtBufs\<close> returns it), an \<^verbatim>\<open>EncodeRowBuffer\<close> bound to it with nil
  slices, and a \<^verbatim>\<open>CheckRowBuffer\<close> with a nil slice. The binding is permanent: \<^verbatim>\<open>AddColVal\<close>
  and every \<^verbatim>\<open>Reset\<close> and every call of the pool's two getters that returns leave
  \<^verbatim>\<open>writeStmtBufs\<close> and the pool's reference as they are. These calls return when the
  capacity asked for is within the allocation limits.
\<close>

theorem NewMutateBuffers_binds_reference:
  "NewMutateBuffers None = Inl AssertionFailed
   \<and> NewMutateBuffers (Some p) =
       Inr \<lparr>stmtBufs = Some p,
            encodeRow = \<lparr>colIDs = nil, row = nil, writeStmtBufs = Some p\<rparr>,
            checkRow = \<lparr>rowToCheck = nil\<rparr>\<rparr>
   \<and> (\<exists>pool. NewMutateBuffers (Some p) = Inr pool \<and> GetWriteStmtBufs pool = Some p
         \<and> writeStmtBufs (encodeRow pool) = Some p)
   \<and> (EncodeRowBuffer_Reset limI limD b capacity hs = Inr (b', hs') \<longrightarrow>
         writeStmtBufs b' = writeStmtBufs b)
   \<and> writeStmtBufs (fst (EncodeRowBuffer_AddColVal slackI slackD b colID val hs))
       = writeStmtBufs b
   \<and> (GetEncodeRowBufferWithCap limI limD pool capacity hs = Inr (buffer, pool', hp') \<longrightarrow>
         encodeRow pool' = buffer \<and> writeStmtBufs buffer = writeStmtBufs (encodeRow pool)
         \<and> stmtBufs pool' = stmtBufs pool \<and> checkRow pool' = checkRow pool)
   \<and> (GetCheckRowBufferWithCap limD pool capacity hs = Inr (cbuffer, cpool', hc') \<longrightarrow>
         checkRow cpool' = cbuffer
         \<and> stmtBufs cpool' = stmtBufs pool \<and> encodeRow cpool' = encodeRow pool)
   \<and> (capacity \<le> int limI \<and> capacity \<le> int limD \<longrightarrow>
         (\<exists>r. EncodeRowBuffer_Reset limI limD b capacity hs = Inr r)
       \<and> (\<exists>r. GetEncodeRowBufferWithCap limI limD pool capacity hs = Inr r)
       \<and> (\<exists>r. GetCheckRowBufferWithCap limD pool capacity hs = Inr r))"
proof -
  have 1: "EncodeRowBuffer_Reset limI limD b capacity hs = Inr (b', hs') \<longrightarrow>
         writeStmtBufs b' = writeStmtBufs b"
    using EncodeRowBuffer_Reset_result by blast
  have 2: "GetEncodeRowBufferWithCap limI limD pool capacity hs = Inr (buffer, pool', hp') \<longrightarrow>
         encodeRow pool' = buffer \<and> writeStmtBufs buffer = writeStmtBufs (encodeRow pool)
         \<and> stmtBufs pool' = stmtBufs pool \<and> checkRow pool' = checkRow pool"
  proof
    assume g: "GetEncodeRowBufferWithCap limI limD pool capacity hs = Inr (buffer, pool', hp')"
    then have r: "EncodeRowBuffer_Reset limI limD (encodeRow pool) capacity hs = Inr (buffer, hp')"
      and p: "pool' = pool\<lparr>encodeRow := buffer\<rparr>"
      by (auto simp: GetEncodeRowBufferWithCap_def split: sum.splits)
    show "encodeRow pool' = buffer \<and> writeStmtBufs buffer = writeStmtBufs (encodeRow pool)
         \<and> stmtBufs pool' = stmtBufs pool \<and> checkRow pool' = checkRow pool"
      using EncodeRowBuffer_Reset_result [OF r] p by simp
  qed
  have 3: "GetCheckRowBufferWithCap limD pool capacity hs = Inr (cbuffer, cpool', hc') \<longrightarrow>
         checkRow cpool' = cbuffer
         \<and> stmtBufs cpool' = stmtBufs pool \<and> encodeRow cpool' = encodeRow pool"
    by (auto simp: GetCheckRowBufferWithCap_def split: sum.splits)
  have 4: "writeStmtBufs (fst (EncodeRowBuffer_AddColVal slackI slackD b colID val hs))
       = writeStmtBufs b"
    by (simp add: EncodeRowBuffer_AddColVal_def split: prod.splits)
  have 5: "capacity \<le> int limI \<and> capacity \<le> int limD \<longrightarrow>
         (\<exists>r. EncodeRowBuffer_Reset limI limD b capacity hs = Inr r)
       \<and> (\<exists>r. GetEncodeRowBufferWithCap limI limD pool capacity hs = Inr r)
       \<and> (\<exists>r. GetCheckRowBufferWithCap limD pool capacity hs = Inr r)"
  proof
    assume l: "capacity \<le> int limI \<and> capacity \<le> int limD"
    obtain b1 hs1 where a: "EncodeRowBuffer_Reset limI limD b capacity hs = Inr (b1, hs1)"
      using EncodeRowBuffer_Reset_returns [of capacity b limI limD hs] l by blast
    obtain b2 hs2 where b: "EncodeRowBuffer_Reset limI limD (encodeRow pool) capacity hs
        = Inr (b2, hs2)"
      using EncodeRowBuffer_Reset_returns [of capacity "encodeRow pool" limI limD hs] l by blast
    obtain c2 hs3 where c: "CheckRowBuffer_Reset limD (checkRow pool) capacity hs
        = Inr (c2, hs3)"
      using CheckRowBuffer_Reset_returns [of capacity "checkRow pool" limD hs] l by blast
    show "(\<exists>r. EncodeRowBuffer_Reset limI limD b capacity hs = Inr r)
       \<and> (\<exists>r. GetEncodeRowBufferWithCap limI limD pool capacity hs = Inr r)
       \<and> (\<exists>r. GetCheckRowBufferWithCap limD pool capacity hs = Inr r)"
      using a b c by (simp add: GetEncodeRowBufferWithCap_def GetCheckRowBufferWithCap_def)
  qed
  show ?thesis
    using 1 2 3 4 5
    by (simp add: NewMutateBuffers_def AssertNotNil_def GetWriteStmtBufs_def)
qed

text \<open>
  Witness for C9: the pool built on the reference 0, and \<^verbatim>\<open>Reset(7)\<close> and the two getters
  with capacity 7, which return and keep the reference.
\<close>

theorem NewMutateBuffers_binds_reference_witness:
  "NewMutateBuffers None = Inl AssertionFailed
   \<and> NewMutateBuffers (Some 0) =
       Inr \<lparr>stmtBufs = Some 0,
            encodeRow = \<lparr>colIDs = nil, row = nil, writeStmtBufs = Some 0\<rparr>,
            checkRow = \<lparr>rowToCheck = nil\<rparr>\<rparr>
   \<and> (\<exists>b' hs'. EncodeRowBuffer_Reset sampleLimI sampleLimD sampleBuffer 7 (heap sampleWorld)
                  = Inr (b', hs')
         \<and> writeStmtBufs b' = Some 0)
   \<and> (\<exists>buffer pool' hs'.
         GetEncodeRowBufferWithCap sampleLimI sampleLimD
           \<lparr>stmtBufs = Some 0,
            encodeRow = \<lparr>colIDs = nil, row = nil, writeStmtBufs = Some 0\<rparr>,
            checkRow = \<lparr>rowToCheck = nil\<rparr>\<rparr> 7 (heap sampleWorld)
           = Inr (buffer, pool', hs')
         \<and> encodeRow pool' = buffer \<and> writeStmtBufs buffer = Some 0
         \<and> stmtBufs pool' = Some 0 \<and> checkRow pool' = \<lparr>rowToCheck = nil\<rparr>)
   \<and> (\<exists>buffer pool' hs'.
         GetCheckRowBufferWithCap sampleLimD
           \<lparr>stmtBufs = Some 0,
            encodeRow = \<lparr>colIDs = nil, row = nil, writeStmtBufs = Some 0\<rparr>,
            checkRow = \<lparr>rowToCheck = nil\<rparr>\<rparr> 7 (heap sampleWorld)
           = Inr (buffer, pool', hs')
         \<and> checkRow pool' = buffer \<and> stmtBufs pool' = Some 0
         \<and> encodeRow pool' = \<lparr>colIDs = nil, row = nil, writeStmtBufs = Some 0\<rparr>)"
proof -
  let ?pool = "\<lparr>stmtBufs = Some 0,
            encodeRow = \<lparr>colIDs = nil, row = nil, writeStmtBufs = Some 0\<rparr>,
            checkRow = \<lparr>rowToCheck = nil\<rparr>\<rparr>"
  have lim: "(7 :: int) \<le> int sampleLimI \<and> (7 :: int) \<le> int sampleLimD"
    by (simp add: sampleLimI_def sampleLimD_def)
  note gen = NewMutateBuffers_binds_reference [where p = 0 and limI = sampleLimI
      and limD = sampleLimD and b = sampleBuffer and capacity = 7 and hs = "heap sampleWorld"
      and pool = ?pool]
  note ret = gen [THEN conjunct2, THEN conjunct2, THEN conjunct2, THEN conjunct2,
      THEN conjunct2, THEN conjunct2, THEN conjunct2, rule_format, OF lim]
  obtain b' hs' where r: "EncodeRowBuffer_Reset sampleLimI sampleLimD sampleBuffer 7
      (heap sampleWorld) = Inr (b', hs')"
    using ret by auto
  obtain buffer pool' hp' where g: "GetEncodeRowBufferWithCap sampleLimI sampleLimD ?pool 7
      (heap sampleWorld) = Inr (buffer, pool', hp')"
    using ret by auto
  obtain cbuffer cpool' hc' where c: "GetCheckRowBufferWithCap sampleLimD ?pool 7
      (heap sampleWorld) = Inr (cbuffer, cpool', hc')"
    using ret by auto
  note inst = gen [where b' = b' and hs' = hs' and buffer = buffer and pool' = pool'
      and hp' = hp' and cbuffer = cbuffer and cpool' = cpool' and hc' = hc']
  have 0: "NewMutateBuffers None = Inl AssertionFailed
      \<and> NewMutateBuffers (Some 0) = Inr ?pool"
    using inst by blast
  have 1: "writeStmtBufs b' = Some 0"
    using inst r by (simp add: sampleBuffer_def)
  have 2: "encodeRow pool' = buffer \<and> writeStmtBufs buffer = Some 0
         \<and> stmtBufs pool' = Some 0 \<and> checkRow pool' = \<lparr>rowToCheck = nil\<rparr>"
    using inst g by simp
  have 3: "checkRow cpool' = cbuffer \<and> stmtBufs cpool' = Some 0
         \<and> encodeRow cpool' = \<lparr>colIDs = nil, row = nil, writeStmtBufs = Some 0\<rparr>"
    using inst c by simp
  show ?thesis
    using 0 r 1 g 2 c 3 by blast
qed

text \<open>
  C10 (amended). When an explicit capacity hint \<open>c\<close> below the requested size \<open>n\<close> is
  supplied and the capacity of the slice is below that hint, \<^verbatim>\<open>make(len=n, cap=c)\<close> panics
  (length above capacity; the panic names the length when \<open>n\<close> is above the allocation
  limit and the capacity otherwise). Under the precondition \<open>0 \<le> n \<le> c\<close> (with \<open>c = n\<close>
  when the hint is absent) the function returns when \<open>c\<close> is within the capacity of the
  slice or within the allocation limit, and panics in \<^verbatim>\<open>make\<close> when \<open>c\<close> is above both. So
  do the callers in the file. \<^verbatim>\<open>Reset(capacity)\<close> of either buffer, which passes size 0,
  returns when for each inner slice the capacity asked for is within the capacity of
  the slice or within the allocation limit, and panics otherwise. The adjustment in
  \<^verbatim>\<open>WriteMemBufferEncoded\<close>, which passes the size \<open>2 * len(b.row)\<close> and no hint, returns
  on a buffer bound to scratch buffers when that size is within the capacity of
  \<^verbatim>\<open>AddRowValues\<close> or within the allocation limit, and panics otherwise.
\<close>

theorem ensureCapacityAndReset_fault_conditions:
  fixes h :: "'a::zero list list" and hs :: "'d::zero heaps" and w :: "'d world"
  assumes "c' = (case optCap of [] \<Rightarrow> n | x # _ \<Rightarrow> x)"
  shows "(int (cap s) < c \<and> c < n \<longrightarrow>
        ensureCapacityAndReset lim h s n [c]
          = Inl (if int lim < n then MakeSliceLenOutOfRange else MakeSliceCapOutOfRange))
   \<and> (0 \<le> n \<and> n \<le> c' \<and> (c' \<le> int (cap s) \<or> c' \<le> int lim) \<longrightarrow>
        (\<exists>r. ensureCapacityAndReset lim h s n optCap = Inr r))
   \<and> (0 \<le> n \<and> n \<le> c' \<and> int (cap s) < c' \<and> int lim < c' \<longrightarrow>
        (\<exists>f. ensureCapacityAndReset lim h s n optCap = Inl f))
   \<and> ((capacity \<le> int (cap (colIDs b)) \<or> capacity \<le> int limI)
        \<and> (capacity \<le> int (cap (row b)) \<or> capacity \<le> int limD) \<longrightarrow>
        (\<exists>r. EncodeRowBuffer_Reset limI limD b capacity hs = Inr r))
   \<and> ((int (cap (colIDs b)) < capacity \<and> int limI < capacity)
        \<or> (int (cap (row b)) < capacity \<and> int limD < capacity) \<longrightarrow>
        (\<exists>f. EncodeRowBuffer_Reset limI limD b capacity hs = Inl f))
   \<and> (capacity \<le> int (cap (rowToCheck cb)) \<or> capacity \<le> int limD \<longrightarrow>
        (\<exists>r. CheckRowBuffer_Reset limD cb capacity hs = Inr r))
   \<and> (int (cap (rowToCheck cb)) < capacity \<and> int limD < capacity \<longrightarrow>
        (\<exists>f. CheckRowBuffer_Reset limD cb capacity hs = Inl f))
   \<and> (writeStmtBufs b = Some p
        \<and> (2 * len (row b) \<le> cap (AddRowValues (bufs w p)) \<or> 2 * len (row b) \<le> limD) \<longrightarrow>
        (\<exists>r. adjustAddRowValues limD b w = Inr r))
   \<and> (writeStmtBufs b = Some p
        \<and> cap (AddRowValues (bufs w p)) < 2 * len (row b) \<and> limD < 2 * len (row b) \<longrightarrow>
        (\<exists>f. adjustAddRowValues limD b w = Inl f))"
proof -
  have 1: "int (cap s) < c \<and> c < n \<longrightarrow>
        ensureCapacityAndReset lim h s n [c]
          = Inl (if int lim < n then MakeSliceLenOutOfRange else MakeSliceCapOutOfRange)"
    by (simp add: ensureCapacityAndReset_def make_slice_def)
  have 2: "0 \<le> n \<and> n \<le> c' \<and> (c' \<le> int (cap s) \<or> c' \<le> int lim) \<longrightarrow>
        (\<exists>r. ensureCapacityAndReset lim h s n optCap = Inr r)"
    using assms
    by (cases optCap) (auto simp: ensureCapacityAndReset_def make_slice_def reslice_def)
  have 3: "0 \<le> n \<and> n \<le> c' \<and> int (cap s) < c' \<and> int lim < c' \<longrightarrow>
        (\<exists>f. ensureCapacityAndReset lim h s n optCap = Inl f)"
    using assms
    by (cases optCap) (auto simp: ensureCapacityAndReset_def make_slice_def reslice_def)
  have 4: "(capacity \<le> int (cap (colIDs b)) \<or> capacity \<le> int limI)
        \<and> (capacity \<le> int (cap (row b)) \<or> capacity \<le> int limD) \<longrightarrow>
        (\<exists>r. EncodeRowBuffer_Reset limI limD b capacity hs = Inr r)"
    using EncodeRowBuffer_Reset_returns [of capacity b limI limD hs] by blast
  have 5: "(int (cap (colIDs b)) < capacity \<and> int limI < capacity)
        \<or> (int (cap (row b)) < capacity \<and> int limD < capacity) \<longrightarrow>
        (\<exists>f. EncodeRowBuffer_Reset limI limD b capacity hs = Inl f)"
    using EncodeRowBuffer_Reset_faults [of b capacity limI limD hs] by blast
  have 6: "capacity \<le> int (cap (rowToCheck cb)) \<or> capacity \<le> int limD \<longrightarrow>
        (\<exists>r. CheckRowBuffer_Reset limD cb capacity hs = Inr r)"
    using CheckRowBuffer_Reset_returns [of capacity cb limD hs] by blast
  have 7: "int (cap (rowToCheck cb)) < capacity \<and> int limD < capacity \<longrightarrow>
        (\<exists>f. CheckRowBuffer_Reset limD cb capacity hs = Inl f)"
    using CheckRowBuffer_Reset_faults [of cb capacity limD hs] by blast
  have 8: "writeStmtBufs b = Some p
        \<and> (2 * len (row b) \<le> cap (AddRowValues (bufs w p)) \<or> 2 * len (row b) \<le> limD) \<longrightarrow>
        (\<exists>r. adjustAddRowValues limD b w = Inr r)"
    using adjustAddRowValues_props [of b p w limD] by blast
  have 9: "writeStmtBufs b = Some p
        \<and> cap (AddRowValues (bufs w p)) < 2 * len (row b) \<and> limD < 2 * len (row b) \<longrightarrow>
        (\<exists>f. adjustAddRowValues limD b w = Inl f)"
    using adjustAddRowValues_faults [of b p w limD] by blast
  show ?thesis
    using 1 2 3 4 5 6 7 8 9 by blast
qed

text \<open>
  Witness for C10: on a slice of capacity 1, size 5 with hint 2 panics in \<^verbatim>\<open>make\<close>, size 2
  with hint 5 returns and size 2 with hint \<open>2 ^ 62\<close> panics; \<^verbatim>\<open>Reset(7)\<close> returns and
  \<^verbatim>\<open>Reset(2 ^ 62)\<close> panics, for both buffers; the adjustment in \<^verbatim>\<open>WriteMemBufferEncoded\<close>
  to 4 cells returns, and panics under an allocation limit of 3 cells.
\<close>

theorem ensureCapacityAndReset_fault_conditions_witness:
  "ensureCapacityAndReset sampleLimD [[0 :: nat]] \<lparr>ptr = Some 0, len = 0, cap = 1\<rparr> 5 [2]
     = Inl MakeSliceCapOutOfRange
   \<and> (\<exists>r. ensureCapacityAndReset sampleLimD [[0 :: nat]] \<lparr>ptr = Some 0, len = 0, cap = 1\<rparr> 2 [5]
          = Inr r)
   \<and> (\<exists>f. ensureCapacityAndReset sampleLimD [[0 :: nat]] \<lparr>ptr = Some 0, len = 0, cap = 1\<rparr> 2
          [2 ^ 62] = Inl f)
   \<and> (\<exists>r. EncodeRowBuffer_Reset sampleLimI sampleLimD sampleBuffer 7 (heap sampleWorld) = Inr r)
   \<and> (\<exists>f. EncodeRowBuffer_Reset sampleLimI sampleLimD sampleBuffer (2 ^ 62) (heap sampleWorld)
          = Inl f)
   \<and> (\<exists>r. CheckRowBuffer_Reset sampleLimD \<lparr>rowToCheck = nil\<rparr> 7 (heap sampleWorld) = Inr r)
   \<and> (\<exists>f. CheckRowBuffer_Reset sampleLimD \<lparr>rowToCheck = nil\<rparr> (2 ^ 62) (heap sampleWorld)
          = Inl f)
   \<and> (\<exists>r. adjustAddRowValues sampleLimD sampleBuffer sampleWorld = Inr r)
   \<and> (\<exists>f. adjustAddRowValues 3 sampleBuffer sampleWorld = Inl f)"
proof -
  let ?h = "[[0 :: nat]]"
  let ?s = "\<lparr>ptr = Some 0, len = 0, cap = 1\<rparr>"
  let ?cb = "\<lparr>rowToCheck = nil\<rparr>"
  have lim: "(7 :: int) \<le> int sampleLimI" "(7 :: int) \<le> int sampleLimD"
    "int sampleLimI < 2 ^ 62" "int sampleLimD < 2 ^ 62" "\<not> int sampleLimD < 5"
    "4 \<le> sampleLimD"
    by (simp_all add: sampleLimI_def sampleLimD_def)
  have buf: "cap (colIDs sampleBuffer) = 3" "cap (row sampleBuffer) = 3"
    "len (row sampleBuffer) = 2" "writeStmtBufs sampleBuffer = Some 0"
    "cap (AddRowValues (bufs sampleWorld 0)) = 0" "cap (rowToCheck ?cb) = 0"
    by (simp_all add: sampleBuffer_def sampleWorld_def nil_def)
  note a = ensureCapacityAndReset_fault_conditions [where lim = sampleLimD and h = ?h and s = ?s and n = 5 and c = 2
      and optCap = "[5]" and c' = 5 and b = sampleBuffer and p = 0 and w = sampleWorld
      and hs = "heap sampleWorld" and limI = sampleLimI and limD = sampleLimD and capacity = 7
      and cb = ?cb]
  note b = ensureCapacityAndReset_fault_conditions [where lim = sampleLimD and h = ?h and s = ?s and n = 2 and c = 2
      and optCap = "[5]" and c' = 5 and b = sampleBuffer and p = 0 and w = sampleWorld
      and hs = "heap sampleWorld" and limI = sampleLimI and limD = sampleLimD
      and capacity = "2 ^ 62" and cb = ?cb]
  note c = ensureCapacityAndReset_fault_conditions [where lim = sampleLimD and h = ?h and s = ?s and n = 2 and c = 2
      and optCap = "[2 ^ 62]" and c' = "2 ^ 62" and b = sampleBuffer and p = 0
      and w = sampleWorld and hs = "heap sampleWorld" and limI = sampleLimI and limD = 3
      and capacity = 7 and cb = ?cb]
  have 1: "ensureCapacityAndReset sampleLimD ?h ?s 5 [2] = Inl MakeSliceCapOutOfRange"
    using a lim(5) by simp
  have 2: "\<exists>r. ensureCapacityAndReset sampleLimD ?h ?s 2 [5] = Inr r"
    using b lim(2) by simp
  have 3: "\<exists>f. ensureCapacityAndReset sampleLimD ?h ?s 2 [2 ^ 62] = Inl f"
    using c [THEN conjunct2, THEN conjunct2, THEN conjunct1] lim(4) by simp
  have 4: "\<exists>r. EncodeRowBuffer_Reset sampleLimI sampleLimD sampleBuffer 7 (heap sampleWorld) = Inr r"
    using a lim(1,2) by simp
  have 5: "\<exists>f. EncodeRowBuffer_Reset sampleLimI sampleLimD sampleBuffer (2 ^ 62)
      (heap sampleWorld) = Inl f"
    using b lim(3) buf(1) by simp
  have 6: "\<exists>r. CheckRowBuffer_Reset sampleLimD ?cb 7 (heap sampleWorld) = Inr r"
    using a lim(2) by simp
  have 7: "\<exists>f. CheckRowBuffer_Reset sampleLimD ?cb (2 ^ 62) (heap sampleWorld) = Inl f"
    using b lim(4) buf(6) by simp
  have 8: "\<exists>r. adjustAddRowValues sampleLimD sampleBuffer sampleWorld = Inr r"
    using a lim(6) buf(3,4) by simp
  have 9: "\<exists>f. adjustAddRowValues 3 sampleBuffer sampleWorld = Inl f"
    using c buf(3,4,5) by simp
  show ?thesis
    using 1 2 3 4 5 6 7 8 9 by blast
qed

text \<open>
  Counterexample to C10 as stated (no fault whenever \<open>size \<le> capacity\<close>), on the nil slice:
  size \<open>-1\<close> with the hint 0, where the capacity 0 is not below the hint, so that the
  function evaluates \<^verbatim>\<open>slice[:-1]\<close>, which panics; and size 0 with the hint \<open>2 ^ 62\<close>, as
  \<^verbatim>\<open>Reset(1 << 62)\<close> passes it, where \<^verbatim>\<open>make\<close> panics because the capacity is above the
  allocation limit.
\<close>

theorem ensureCapacityAndReset_faults_within_precondition:
  "ensureCapacityAndReset sampleLimI ([] :: int64 list list) nil (- 1) [0]
     = Inl SliceBoundsOutOfRange
   \<and> ensureCapacityAndReset sampleLimI ([] :: int64 list list) nil 0 [2 ^ 62]
     = Inl MakeSliceCapOutOfRange"
  by (simp add: ensureCapacityAndReset_def make_slice_def reslice_def nil_def sampleLimI_def)

end
